theory Spec2Isabelle
  imports Complex_Main "HOL-Library.Word" "HOL-Library.Sublist" "HOL-Library.Multiset"
begin

section \<open>JavaScript strings and values\<close>

text \<open>
  A JavaScript string is a sequence of UTF-16 code units. The literals of
  \<^verbatim>\<open>src/index.js\<close> that the model needs are ASCII, and \<open>js\<close> turns an ASCII
  literal into its code units.
\<close>

type_synonym jschar = "16 word"
type_synonym jsstring = "jschar list"

definition js :: "string \<Rightarrow> jsstring" where
  "js s = map of_char s"

text \<open>
  The character class \<^verbatim>\<open>\s\<close> of a regular expression and the characters that
  \<^verbatim>\<open>String.prototype.trim\<close> removes are the same set: WhiteSpace and LineTerminator
  of ECMA-262. The class \<^verbatim>\<open>\d\<close> is \<^verbatim>\<open>[0-9]\<close>.
\<close>

definition isWhiteSpace :: "jschar \<Rightarrow> bool" where
  "isWhiteSpace c \<longleftrightarrow>
     c = 0x9 \<or> c = 0xA \<or> c = 0xB \<or> c = 0xC \<or> c = 0xD \<or> c = 0x20 \<or> c = 0xA0 \<or>
     c = 0x1680 \<or> (0x2000 \<le> c \<and> c \<le> 0x200A) \<or> c = 0x2028 \<or> c = 0x2029 \<or>
     c = 0x202F \<or> c = 0x205F \<or> c = 0x3000 \<or> c = 0xFEFF"

definition isDigit :: "jschar \<Rightarrow> bool" where
  "isDigit c \<longleftrightarrow> 0x30 \<le> c \<and> c \<le> 0x39"

text \<open>\<^verbatim>\<open>s.includes(sub)\<close>: some position of \<open>s\<close> starts with \<open>sub\<close>.\<close>

fun str_includes :: "jsstring \<Rightarrow> jsstring \<Rightarrow> bool" where
  "str_includes [] sub = (sub = [])"
| "str_includes (c # cs) sub = (prefix sub (c # cs) \<or> str_includes cs sub)"

text \<open>
  \<^verbatim>\<open>s.split(sep)\<close> for a string separator: the pieces between the occurrences
  of \<open>sep\<close>, found left to right; with the empty separator, the code units one by one.
\<close>

function str_split :: "jsstring \<Rightarrow> jsstring \<Rightarrow> jsstring list" where
  "str_split sep [] = (if sep = [] then [] else [[]])"
| "str_split sep (c # cs) =
     (if sep = [] then map (\<lambda>u. [u]) (c # cs)
      else if prefix sep (c # cs) then [] # str_split sep (drop (length sep) (c # cs))
      else (case str_split sep cs of [] \<Rightarrow> [[c]] | p # ps \<Rightarrow> (c # p) # ps))"
  by pat_completeness auto
termination
  by (relation "measure (\<lambda>(sep, s). length s)") auto

text \<open>\<^verbatim>\<open>s.split(/\s+/)\<close>: the separator is a maximal run of white space.\<close>

function split_ws :: "jsstring \<Rightarrow> jsstring list" where
  "split_ws [] = [[]]"
| "split_ws (c # cs) =
     (if isWhiteSpace c then [] # split_ws (dropWhile isWhiteSpace cs)
      else (case split_ws cs of [] \<Rightarrow> [[c]] | p # ps \<Rightarrow> (c # p) # ps))"
  by pat_completeness auto
termination
  by (relation "measure length") (auto simp: length_dropWhile_le less_Suc_eq_le)

text \<open>\<^verbatim>\<open>s.trim()\<close>.\<close>

definition trim :: "jsstring \<Rightarrow> jsstring" where
  "trim s = rev (dropWhile isWhiteSpace (rev (dropWhile isWhiteSpace s)))"

text \<open>
  \<^verbatim>\<open>String(n)\<close> of a natural number \<open>n\<close>, as a template literal
  \<^verbatim>\<open>`Monitor ${index + 1}`\<close> computes it: the decimal digits.
\<close>

fun numberToString :: "nat \<Rightarrow> jsstring" where
  "numberToString n =
     (if n < 10 then [0x30 + of_nat n]
      else numberToString (n div 10) @ [0x30 + of_nat (n mod 10)])"

declare numberToString.simps [simp del]

text \<open>
  The values of the language that the program handles: the JSON values that
  \<^verbatim>\<open>JSON.parse\<close> returns, and \<^verbatim>\<open>undefined\<close>. An object is the list of its properties, each
  name once, in the order the source or the parsed text writes them.
\<close>

datatype jsval =
    JUndefined
  | JNull
  | JBool bool
  | JNum real
  | JStr jsstring
  | JArr "jsval list"
  | JObj "(jsstring \<times> jsval) list"

text \<open>
  An exception value with its \<^verbatim>\<open>message\<close>. The \<^verbatim>\<open>TypeError\<close> that the runtime
  raises on a property access of \<^verbatim>\<open>null\<close>, on a call of something that is not a
  function, or on an iteration of something that is not iterable, is caught inside
  the function that raised it everywhere in this program, and its message is never
  read; the model gives it a fixed text.
\<close>

datatype error = Error (message: jsstring)

definition TypeError :: error where
  "TypeError = Error (js ''TypeError'')"

text \<open>Truthiness, and \<^verbatim>\<open>a || b\<close> on values that are already evaluated.\<close>

fun truthy :: "jsval \<Rightarrow> bool" where
  "truthy JUndefined = False"
| "truthy JNull = False"
| "truthy (JBool b) = b"
| "truthy (JNum x) = (x \<noteq> 0)"
| "truthy (JStr s) = (s \<noteq> [])"
| "truthy (JArr xs) = True"
| "truthy (JObj kvs) = True"

definition or_else :: "jsval \<Rightarrow> jsval \<Rightarrow> jsval" where
  "or_else a b = (if truthy a then a else b)"

text \<open>
  \<^verbatim>\<open>v.key\<close> for the property names this program reads, none of which is a
  built-in property of an object, a string, an array, a number or a boolean: a \<^verbatim>\<open>TypeError\<close>
  on \<^verbatim>\<open>null\<close> and \<^verbatim>\<open>undefined\<close>, the property of an object, \<^verbatim>\<open>undefined\<close>
  otherwise.
\<close>

fun getprop :: "jsval \<Rightarrow> jsstring \<Rightarrow> error + jsval" where
  "getprop JUndefined key = Inl TypeError"
| "getprop JNull key = Inl TypeError"
| "getprop (JObj kvs) key = Inr (case map_of kvs key of None \<Rightarrow> JUndefined | Some v \<Rightarrow> v)"
| "getprop v key = Inr JUndefined"

text \<open>
  \<^verbatim>\<open>for (const x of v)\<close>: the elements of an array, the code points of a string
  (a surrogate pair is one element), a \<^verbatim>\<open>TypeError\<close> otherwise.
\<close>

fun codePoints :: "jsstring \<Rightarrow> jsstring list" where
  "codePoints (h # l # cs) =
     (if 0xD800 \<le> h \<and> h \<le> 0xDBFF \<and> 0xDC00 \<le> l \<and> l \<le> 0xDFFF
      then [h, l] # codePoints cs else [h] # codePoints (l # cs))"
| "codePoints [c] = [[c]]"
| "codePoints [] = []"

fun iterate :: "jsval \<Rightarrow> error + jsval list" where
  "iterate (JArr xs) = Inr xs"
| "iterate (JStr s) = Inr (map JStr (codePoints s))"
| "iterate v = Inl TypeError"

text \<open>
  \<^verbatim>\<open>v.includes(sub)\<close> with a string argument: the substring test on a string,
  the membership test on an array, a \<^verbatim>\<open>TypeError\<close> on every other value (which
  has no such method).
\<close>

fun val_includes :: "jsval \<Rightarrow> jsstring \<Rightarrow> error + bool" where
  "val_includes (JStr s) sub = Inr (str_includes s sub)"
| "val_includes (JArr xs) sub = Inr (JStr sub \<in> set xs)"
| "val_includes v sub = Inl TypeError"

section \<open>The host: everything the server gets from outside\<close>

text \<open>
  The data that the \<^verbatim>\<open>systeminformation\<close> library resolves to, typed as the
  library declares it: the displays of \<^verbatim>\<open>si.graphics()\<close> and the process table
  of \<^verbatim>\<open>si.processes()\<close>. The field \<open>memVss\<close> is the one the source reads; it is
  \<open>None\<close> where the library supplies no such property.
\<close>

record display =
  vendor :: jsstring
  model :: jsstring
  main :: bool
  builtin :: bool
  resolutionX :: "real option"
  resolutionY :: "real option"

record proc =
  pid :: real
  name :: jsstring
  cpu :: real
  memRss :: real
  memVss :: "real option"
  state :: jsstring
  started :: jsstring
  user :: jsstring

record processes =
  all :: real
  running :: real
  sleeping :: real
  blocked :: real
  list :: "proc list"

text \<open>
  One request sees one host: the platform name, what each library call and each
  child process resolves to or rejects with (a non-zero exit and a timeout are both a
  rejection of \<^verbatim>\<open>execAsync\<close>), the built-ins of the runtime that are not modelled
  further (\<^verbatim>\<open>JSON.parse\<close>, \<^verbatim>\<open>JSON.stringify(v, null, 2)\<close>,
  \<^verbatim>\<open>Number.prototype.toFixed\<close>, \<^verbatim>\<open>String.prototype.localeCompare\<close>), and the
  outcome of the six handlers that only reformat library data.

  A number of the program is an IEEE double; the model writes it as the real number it
  denotes. The division and the multiplication of doubles round their result, so they
  are operations of the host as well (\<open>float_div\<close>, \<open>float_mul\<close>) and not the
  exact operations on the reals. The model uses exact arithmetic only where the
  rounding cannot be seen: the sign of a difference of two doubles, which is the sign of
  the exact difference, and integers counted in \<open>nat\<close>.
\<close>

record host =
  os_platform :: jsstring
  os_totalmem :: real
  si_graphics :: "error + display list"
  si_processes :: "error + processes"
  execAsync :: "jsstring \<Rightarrow> error + jsstring"
  JSON_parse :: "jsstring \<Rightarrow> error + jsval"
  JSON_stringify :: "jsval \<Rightarrow> jsstring"
  toFixed :: "real \<Rightarrow> nat \<Rightarrow> jsstring"
  float_div :: "real \<Rightarrow> real \<Rightarrow> real"
  float_mul :: "real \<Rightarrow> real \<Rightarrow> real"
  localeCompare :: "jsstring \<Rightarrow> jsstring \<Rightarrow> real"
  getCpuInfo :: "error + jsval"
  getMemoryInfo :: "error + jsval"
  getDiskUsage :: "error + jsval"
  getSystemInfo :: "error + jsval"
  getNetworkInfo :: "error + jsval"
  getQuickStats :: "error + jsval"

section \<open>Monitor detection on Linux\<close>

text \<open>
  \<^verbatim>\<open>line.match(/(\d+)x(\d+)/)\<close>: the leftmost match, both groups greedy. At a
  start position the first group takes the whole run of digits (after giving a digit
  back the next character is a digit, never \<^verbatim>\<open>x\<close>), then \<^verbatim>\<open>x\<close>, then the
  whole run of digits that follows, which must not be empty.
\<close>

definition match_here :: "jsstring \<Rightarrow> (jsstring \<times> jsstring) option" where
  "match_here s =
     (let width = takeWhile isDigit s; rest = dropWhile isDigit s in
      if width = [] then None
      else (case rest of
              [] \<Rightarrow> None
            | c # rest' \<Rightarrow>
                if c = 0x78 \<and> takeWhile isDigit rest' \<noteq> []
                then Some (width, takeWhile isDigit rest') else None))"

fun match_resolution :: "jsstring \<Rightarrow> (jsstring \<times> jsstring) option" where
  "match_resolution [] = None"
| "match_resolution (c # cs) =
     (case match_here (c # cs) of
        Some groups \<Rightarrow> Some groups
      | None \<Rightarrow> match_resolution cs)"

text \<open>
  The body of the loop of \<^verbatim>\<open>_getLinuxMonitors\<close> for one line and the current
  \<^verbatim>\<open>monitorId\<close>: the record it pushes, if it pushes one.
\<close>

definition linux_line :: "nat \<Rightarrow> jsstring \<Rightarrow> jsval option" where
  "linux_line monitorId line =
     (if str_includes line (js '' connected'') \<and> \<not> str_includes line (js ''disconnected'') then
        (let parts = split_ws line;
             name = (case parts of [] \<Rightarrow> JUndefined | p # _ \<Rightarrow> JStr p)
         in case match_resolution line of
              Some (width, height) \<Rightarrow>
                Some (JObj [(js ''id'', JNum (real monitorId)),
                            (js ''name'', name),
                            (js ''width'', JStr width),
                            (js ''height'', JStr height),
                            (js ''is_primary'', JBool (str_includes line (js ''primary''))),
                            (js ''detection_method'', JStr (js ''xrandr''))])
            | None \<Rightarrow> None)
      else None)"

fun linux_loop :: "nat \<Rightarrow> jsstring list \<Rightarrow> jsval list" where
  "linux_loop monitorId [] = []"
| "linux_loop monitorId (line # lines) =
     (case linux_line monitorId line of
        Some monitor \<Rightarrow> monitor # linux_loop (monitorId + 1) lines
      | None \<Rightarrow> linux_loop monitorId lines)"

text \<open>
  \<^verbatim>\<open>_getLinuxMonitors\<close>: a rejection of the command is caught and leaves the
  list empty; nothing after the command can throw.
\<close>

definition getLinuxMonitors :: "host \<Rightarrow> jsval list" where
  "getLinuxMonitors h =
     (case execAsync h (js ''xrandr --query'') of
        Inl e \<Rightarrow> []
      | Inr stdout \<Rightarrow> linux_loop 1 (str_split [0xA] stdout))"

section \<open>Monitor detection on Windows\<close>

definition windows_cmd :: jsstring where
  "windows_cmd = js (''powershell '' @ [CHR 0x22] @
     ''Get-CimInstance -Namespace root/wmi -ClassName WmiMonitorBasicDisplayParams | '' @
     ''ForEach-Object { $_ | Select-Object InstanceName, MaxHorizontalImageSize, '' @
     ''MaxVerticalImageSize } | ConvertTo-Json'' @ [CHR 0x22])"

text \<open>
  The callback of \<^verbatim>\<open>data.forEach\<close>: the record it pushes, or the
  \<^verbatim>\<open>TypeError\<close> of reading a property of \<^verbatim>\<open>null\<close>.
\<close>

definition win_monitor :: "nat \<Rightarrow> jsval \<Rightarrow> error + jsval" where
  "win_monitor index monitor =
     (case getprop monitor (js ''InstanceName'') of
        Inl e \<Rightarrow> Inl e
      | Inr inst \<Rightarrow>
     (case getprop monitor (js ''MaxHorizontalImageSize'') of
        Inl e \<Rightarrow> Inl e
      | Inr horizontal \<Rightarrow>
     (case getprop monitor (js ''MaxVerticalImageSize'') of
        Inl e \<Rightarrow> Inl e
      | Inr vertical \<Rightarrow>
          Inr (JObj [(js ''id'', JNum (real (index + 1))),
                     (js ''name'', JStr (js ''Monitor '' @ numberToString (index + 1))),
                     (js ''width'', JStr (js ''Unknown'')),
                     (js ''height'', JStr (js ''Unknown'')),
                     (js ''instance'', or_else inst (JStr (js ''Unknown''))),
                     (js ''physical_width_cm'', horizontal),
                     (js ''physical_height_cm'', vertical),
                     (js ''detection_method'', JStr (js ''wmi''))]))))"

text \<open>
  \<^verbatim>\<open>data.forEach\<close> inside the \<^verbatim>\<open>try\<close>: an exception ends the loop and the
  records pushed before it stay in \<^verbatim>\<open>monitors\<close>.
\<close>

fun win_loop :: "nat \<Rightarrow> jsval list \<Rightarrow> jsval list" where
  "win_loop index [] = []"
| "win_loop index (monitor # rest) =
     (case win_monitor index monitor of
        Inl e \<Rightarrow> []
      | Inr r \<Rightarrow> r # win_loop (index + 1) rest)"

definition getWindowsMonitors :: "host \<Rightarrow> jsval list" where
  "getWindowsMonitors h =
     (case execAsync h windows_cmd of
        Inl e \<Rightarrow> []
      | Inr stdout \<Rightarrow>
          if trim stdout \<noteq> [] then
            (case JSON_parse h stdout of
               Inl e \<Rightarrow> []
             | Inr data \<Rightarrow>
                 win_loop 0 (case data of JArr xs \<Rightarrow> xs | _ \<Rightarrow> [data]))
          else [])"

section \<open>Monitor detection on macOS\<close>

text \<open>
  The resolution of one monitor entry, from the value of its
  \<^verbatim>\<open>_spdisplays_resolution\<close> property: \<^verbatim>\<open>width\<close> and \<^verbatim>\<open>height\<close> after the
  \<^verbatim>\<open>if\<close>, or the exception of \<^verbatim>\<open>resolution.includes\<close>, which no inner
  \<^verbatim>\<open>try\<close> guards. Inside the inner \<^verbatim>\<open>try\<close>, an array has no \<^verbatim>\<open>split\<close>
  (both stay \<^verbatim>\<open>'Unknown'\<close>), and a missing \<^verbatim>\<open>parts[1]\<close> throws after
  \<^verbatim>\<open>width\<close> is assigned.
\<close>

definition macResolution :: "jsval \<Rightarrow> error + jsval \<times> jsval" where
  "macResolution field =
     (let resolution = or_else field (JStr []) in
      case val_includes resolution (js '' x '') of
        Inl e \<Rightarrow> Inl e
      | Inr False \<Rightarrow> Inr (JStr (js ''Unknown''), JStr (js ''Unknown''))
      | Inr True \<Rightarrow>
          (case resolution of
             JStr s \<Rightarrow>
               (case str_split (js '' x '') s of
                  [] \<Rightarrow> Inr (JStr (js ''Unknown''), JStr (js ''Unknown''))
                | [p0] \<Rightarrow> Inr (JStr (trim p0), JStr (js ''Unknown''))
                | p0 # p1 # _ \<Rightarrow>
                    Inr (JStr (trim p0),
                         (case str_split (js '' '') p1 of
                            [] \<Rightarrow> JUndefined
                          | t # _ \<Rightarrow> JStr t)))
           | _ \<Rightarrow> Inr (JStr (js ''Unknown''), JStr (js ''Unknown''))))"

text \<open>
  The body of the inner loop of \<^verbatim>\<open>_getMacOSMonitors\<close> for one monitor entry and
  the current \<^verbatim>\<open>monitorId\<close>. In the object literal \<^verbatim>\<open>id: monitorId++\<close> is
  evaluated before \<^verbatim>\<open>name\<close>, so the template \<^verbatim>\<open>`Monitor ${monitorId}`\<close> reads
  the counter after the increment.
\<close>

definition mac_monitor :: "nat \<Rightarrow> jsval \<Rightarrow> error + jsval" where
  "mac_monitor monitorId monitor =
     (case getprop monitor (js ''_spdisplays_resolution'') of
        Inl e \<Rightarrow> Inl e
      | Inr field \<Rightarrow>
     (case macResolution field of
        Inl e \<Rightarrow> Inl e
      | Inr (width, height) \<Rightarrow>
     (case getprop monitor (js ''_name'') of
        Inl e \<Rightarrow> Inl e
      | Inr nm \<Rightarrow>
     (case val_includes (or_else nm (JStr [])) (js ''Retina'') of
        Inl e \<Rightarrow> Inl e
      | Inr retina \<Rightarrow>
          Inr (JObj [(js ''id'', JNum (real monitorId)),
                     (js ''name'',
                        or_else nm (JStr (js ''Monitor '' @ numberToString (monitorId + 1)))),
                     (js ''width'', width),
                     (js ''height'', height),
                     (js ''retina'', JBool retina),
                     (js ''detection_method'', JStr (js ''system_profiler''))])))))"

text \<open>
  The two loops, inside the outer \<^verbatim>\<open>try\<close>. Each returns the records pushed and
  either the exception that ended it or the next \<^verbatim>\<open>monitorId\<close>.
\<close>

fun mac_inner :: "nat \<Rightarrow> jsval list \<Rightarrow> jsval list \<times> (error + nat)" where
  "mac_inner monitorId [] = ([], Inr monitorId)"
| "mac_inner monitorId (monitor # rest) =
     (case mac_monitor monitorId monitor of
        Inl e \<Rightarrow> ([], Inl e)
      | Inr r \<Rightarrow>
          (case mac_inner (monitorId + 1) rest of (rs, st) \<Rightarrow> (r # rs, st)))"

definition mac_displayInfo :: "jsval \<Rightarrow> error + jsval list" where
  "mac_displayInfo display =
     (case getprop display (js ''spdisplays_ndrvs'') of
        Inl e \<Rightarrow> Inl e
      | Inr v \<Rightarrow> iterate (or_else v (JArr [])))"

fun mac_outer :: "nat \<Rightarrow> jsval list \<Rightarrow> jsval list \<times> (error + nat)" where
  "mac_outer monitorId [] = ([], Inr monitorId)"
| "mac_outer monitorId (display # rest) =
     (case mac_displayInfo display of
        Inl e \<Rightarrow> ([], Inl e)
      | Inr displayInfo \<Rightarrow>
          (case mac_inner monitorId displayInfo of
             (rs, Inl e) \<Rightarrow> (rs, Inl e)
           | (rs, Inr next) \<Rightarrow>
               (case mac_outer next rest of (rs', st) \<Rightarrow> (rs @ rs', st))))"

definition getMacOSMonitors :: "host \<Rightarrow> jsval list" where
  "getMacOSMonitors h =
     (case execAsync h (js ''system_profiler SPDisplaysDataType -json'') of
        Inl e \<Rightarrow> []
      | Inr stdout \<Rightarrow>
     (case JSON_parse h stdout of
        Inl e \<Rightarrow> []
      | Inr data \<Rightarrow>
     (case getprop data (js ''SPDisplaysDataType'') of
        Inl e \<Rightarrow> []
      | Inr v \<Rightarrow>
     (case iterate (or_else v (JArr [])) of
        Inl e \<Rightarrow> []
      | Inr displays \<Rightarrow> fst (mac_outer 1 displays)))))"

section \<open>\<^verbatim>\<open>getMonitorInfo\<close>\<close>

text \<open>The callback of \<^verbatim>\<open>displays.displays.map\<close>.\<close>

definition numberOrNull :: "real option \<Rightarrow> jsval" where
  "numberOrNull x = (case x of None \<Rightarrow> JNull | Some r \<Rightarrow> JNum r)"

definition si_monitor :: "nat \<Rightarrow> display \<Rightarrow> jsval" where
  "si_monitor index d =
     JObj [(js ''id'', JNum (real (index + 1))),
           (js ''name'',
              or_else (JStr (model d)) (JStr (js ''Display '' @ numberToString (index + 1)))),
           (js ''vendor'', or_else (JStr (vendor d)) (JStr (js ''Unknown''))),
           (js ''width'', or_else (numberOrNull (resolutionX d)) (JStr (js ''Unknown''))),
           (js ''height'', or_else (numberOrNull (resolutionY d)) (JStr (js ''Unknown''))),
           (js ''main'', or_else (JBool (main d)) (JBool False)),
           (js ''builtin'', or_else (JBool (builtin d)) (JBool False)),
           (js ''detection_method'', JStr (js ''systeminformation''))]"

definition si_monitors :: "display list \<Rightarrow> jsval list" where
  "si_monitors displays = map (\<lambda>(index, d). si_monitor index d) (enumerate 0 displays)"

text \<open>The platform-specific strategy, chosen by \<^verbatim>\<open>os.platform()\<close>.\<close>

definition platformMonitors :: "host \<Rightarrow> jsval list" where
  "platformMonitors h =
     (if os_platform h = js ''win32'' then getWindowsMonitors h
      else if os_platform h = js ''darwin'' then getMacOSMonitors h
      else if os_platform h = js ''linux'' then getLinuxMonitors h
      else [])"

definition fallbackMonitor :: jsval where
  "fallbackMonitor =
     JObj [(js ''id'', JNum 1),
           (js ''name'', JStr (js ''Unknown Monitor'')),
           (js ''width'', JStr (js ''Unknown'')),
           (js ''height'', JStr (js ''Unknown'')),
           (js ''detection_method'', JStr (js ''fallback'')),
           (js ''note'', JStr (js ''Unable to detect monitor details''))]"

text \<open>
  \<^verbatim>\<open>getMonitorInfo\<close>. The only call of its \<^verbatim>\<open>try\<close> block that can throw is
  \<^verbatim>\<open>si.graphics()\<close>: the platform strategies catch their own exceptions.
\<close>

definition getMonitorInfo :: "host \<Rightarrow> jsval" where
  "getMonitorInfo h =
     (let systemName = os_platform h in
      case si_graphics h of
        Inl error \<Rightarrow>
          JObj [(js ''error'', JStr (js ''Failed to get monitor info: '' @ message error)),
                (js ''system'', JStr systemName)]
      | Inr displays \<Rightarrow>
          (let monitors = (if length displays > 0 then si_monitors displays else []);
               monitors = (if length monitors = 0 then platformMonitors h else monitors);
               monitors = (if length monitors = 0 then [fallbackMonitor] else monitors)
           in JObj [(js ''total_monitors'', JNum (real (length monitors))),
                    (js ''monitors'', JArr monitors),
                    (js ''system'', JStr systemName)]))"

section \<open>\<^verbatim>\<open>getRunningProcesses\<close>\<close>

text \<open>
  \<^verbatim>\<open>Array.prototype.sort\<close> is stable, and with a comparator that is a consistent
  order its result is the one sorted arrangement in which elements that compare equal
  keep their order. The insertion sort that puts each element in front of the sorted
  rest computes it.
\<close>

fun insert_by :: "('a \<Rightarrow> 'a \<Rightarrow> real) \<Rightarrow> 'a \<Rightarrow> 'a list \<Rightarrow> 'a list" where
  "insert_by cmp x [] = [x]"
| "insert_by cmp x (y # ys) =
     (if cmp x y \<le> 0 then x # y # ys else y # insert_by cmp x ys)"

definition array_sort :: "('a \<Rightarrow> 'a \<Rightarrow> real) \<Rightarrow> 'a list \<Rightarrow> 'a list" where
  "array_sort cmp xs = foldr (insert_by cmp) xs []"

text \<open>
  \<^verbatim>\<open>xs.slice(0, e)\<close> for a number \<open>e\<close>: the end is truncated to an integer, a
  negative end counts from the end of the array, and the result is clamped to the
  array.
\<close>

definition ToIntegerOrInfinity :: "real \<Rightarrow> int" where
  "ToIntegerOrInfinity x = (if x < 0 then - \<lfloor>- x\<rfloor> else \<lfloor>x\<rfloor>)"

definition slice0 :: "'a list \<Rightarrow> real \<Rightarrow> 'a list" where
  "slice0 xs e =
     (let len = int (length xs);
          relativeEnd = ToIntegerOrInfinity e;
          final = (if relativeEnd < 0 then max (len + relativeEnd) 0 else min relativeEnd len)
      in take (nat final) xs)"

text \<open>The \<^verbatim>\<open>switch (sortBy)\<close>, which compares with \<^verbatim>\<open>===\<close>.\<close>

definition sortProcs :: "host \<Rightarrow> jsval \<Rightarrow> proc list \<Rightarrow> proc list" where
  "sortProcs h sortBy procs =
     (if sortBy = JStr (js ''memory'') then array_sort (\<lambda>a b. memRss b - memRss a) procs
      else if sortBy = JStr (js ''name'')
        then array_sort (\<lambda>a b. localeCompare h (name a) (name b)) procs
      else array_sort (\<lambda>a b. cpu b - cpu a) procs)"

text \<open>The callback of \<^verbatim>\<open>.map\<close> that formats one process.\<close>

definition format_proc :: "host \<Rightarrow> proc \<Rightarrow> jsval" where
  "format_proc h p =
     JObj [(js ''pid'', JNum (pid p)),
           (js ''name'', JStr (name p)),
           (js ''cpu_percent'', JStr (toFixed h (cpu p) 1 @ js ''%'')),
           (js ''memory_mb'',
              JStr (toFixed h (float_div h (float_div h (memRss p) 1024) 1024) 1 @ js '' MB'')),
           (js ''memory_percent'',
              JStr ((case memVss p of
                       None \<Rightarrow> js ''0.0''
                     | Some v \<Rightarrow>
                         if v \<noteq> 0
                         then toFixed h (float_mul h (float_div h v (os_totalmem h)) 100) 1
                         else js ''0.0'') @ js ''%'')),
           (js ''status'', JStr (state p)),
           (js ''started'', JStr (started p)),
           (js ''user'', or_else (JStr (user p)) (JStr (js ''N/A'')))]"

text \<open>
  \<^verbatim>\<open>getRunningProcesses(limit = 20, sortBy = 'cpu')\<close>: a default applies when the
  argument is \<^verbatim>\<open>undefined\<close> (\<open>None\<close> for the limit, which is a number otherwise).
  The selection of the processes is a function of its own so that it can be talked
  about before formatting.
\<close>

definition selectProcs :: "host \<Rightarrow> real option \<Rightarrow> jsval \<Rightarrow> proc list \<Rightarrow> proc list" where
  "selectProcs h limit_arg sortBy_arg procs =
     (let limit = (case limit_arg of None \<Rightarrow> 20 | Some l \<Rightarrow> l);
          sortBy = (if sortBy_arg = JUndefined then JStr (js ''cpu'') else sortBy_arg)
      in slice0 (sortProcs h sortBy procs) limit)"

definition summary :: "processes \<Rightarrow> jsval" where
  "summary processes =
     JObj [(js ''total_processes'', JNum (all processes)),
           (js ''running'', JNum (running processes)),
           (js ''sleeping'', JNum (sleeping processes)),
           (js ''blocked'', or_else (JNum (blocked processes)) (JNum 0))]"

definition getRunningProcesses :: "host \<Rightarrow> real option \<Rightarrow> jsval \<Rightarrow> error + jsval" where
  "getRunningProcesses h limit_arg sortBy_arg =
     (case si_processes h of
        Inl e \<Rightarrow> Inl e
      | Inr processes \<Rightarrow>
          Inr (JObj [(js ''summary'', summary processes),
                     (js ''processes'',
                        JArr (map (format_proc h)
                               (selectProcs h limit_arg sortBy_arg (list processes))))]))"

section \<open>The tool-call handler\<close>

text \<open>
  The arguments of a request, typed as the input schema of
  \<^verbatim>\<open>get_running_processes\<close> declares them; \<open>None\<close> and \<open>JUndefined\<close> are an
  argument that is not given.
\<close>

record args =
  limit :: "real option"
  sort_by :: jsval

text \<open>
  The \<^verbatim>\<open>switch (name)\<close> inside the \<^verbatim>\<open>try\<close>: what the chosen handler resolves to
  or throws; the \<^verbatim>\<open>default\<close> case throws.
\<close>

definition runTool :: "host \<Rightarrow> jsstring \<Rightarrow> args option \<Rightarrow> error + jsval" where
  "runTool h toolName arguments =
     (if toolName = js ''get_cpu_info'' then getCpuInfo h
      else if toolName = js ''get_memory_info'' then getMemoryInfo h
      else if toolName = js ''get_disk_usage'' then getDiskUsage h
      else if toolName = js ''get_running_processes'' then
        getRunningProcesses h
          (case arguments of None \<Rightarrow> None | Some a \<Rightarrow> limit a)
          (case arguments of None \<Rightarrow> JUndefined | Some a \<Rightarrow> sort_by a)
      else if toolName = js ''get_system_info'' then getSystemInfo h
      else if toolName = js ''get_network_info'' then getNetworkInfo h
      else if toolName = js ''get_quick_stats'' then getQuickStats h
      else if toolName = js ''get_monitor_info'' then Inr (getMonitorInfo h)
      else Inl (Error (js ''Unknown tool: '' @ toolName)))"

text \<open>The handler of a tool-call request: the \<^verbatim>\<open>try\<close> and its \<^verbatim>\<open>catch\<close>.\<close>

definition callTool :: "host \<Rightarrow> jsstring \<Rightarrow> args option \<Rightarrow> jsval" where
  "callTool h toolName arguments =
     (case runTool h toolName arguments of
        Inr result \<Rightarrow>
          JObj [(js ''content'',
                 JArr [JObj [(js ''type'', JStr (js ''text'')),
                             (js ''text'',
                                JStr (case result of
                                        JStr s \<Rightarrow> s
                                      | _ \<Rightarrow> JSON_stringify h result))]])]
      | Inl error \<Rightarrow>
          JObj [(js ''content'',
                 JArr [JObj [(js ''type'', JStr (js ''text'')),
                             (js ''text'', JStr (js ''Error: '' @ message error))]]),
                (js ''isError'', JBool True)])"

section \<open>What the specification talks about\<close>

text \<open>
  The notions of the specification, written from its words and independent of the
  functions above: a string contains another one, a line matches the pattern
  \<^verbatim>\<open><digits>x<digits>\<close>, the leftmost match of that pattern with its two groups as
  long as they can be, and the first whitespace-delimited token of a line (its first
  maximal run of characters that are not white space; white space in front of it is
  skipped).
\<close>

definition contains :: "jsstring \<Rightarrow> jsstring \<Rightarrow> bool" where
  "contains line sub \<longleftrightarrow> (\<exists>pre post. line = pre @ sub @ post)"

definition digits :: "jsstring \<Rightarrow> bool" where
  "digits w \<longleftrightarrow> w \<noteq> [] \<and> (\<forall>c \<in> set w. isDigit c)"

definition matches_resolution :: "jsstring \<Rightarrow> bool" where
  "matches_resolution line \<longleftrightarrow>
     (\<exists>pre w h post. line = pre @ w @ [0x78] @ h @ post \<and> digits w \<and> digits h)"

definition first_match :: "jsstring \<Rightarrow> jsstring \<Rightarrow> jsstring \<Rightarrow> bool" where
  "first_match line w h \<longleftrightarrow>
     (\<exists>pre post. line = pre @ w @ [0x78] @ h @ post \<and> digits w \<and> digits h \<and>
        (post = [] \<or> \<not> isDigit (hd post)) \<and>
        (\<forall>pre' w' h' post'. line = pre' @ w' @ [0x78] @ h' @ post' \<and> digits w' \<and> digits h'
            \<longrightarrow> length pre \<le> length pre'))"

definition first_token :: "jsstring \<Rightarrow> jsstring" where
  "first_token line =
     takeWhile (\<lambda>c. \<not> isWhiteSpace c) (dropWhile isWhiteSpace line)"

text \<open>
  The text of a line in front of its first white-space character. It is the first
  token of a line that starts with a token, and empty for a line that starts with white
  space.
\<close>

definition leading_text :: "jsstring \<Rightarrow> jsstring" where
  "leading_text line = takeWhile (\<lambda>c. \<not> isWhiteSpace c) line"

text \<open>The lines of the Linux command's output that the specification turns into a record.\<close>

definition qualifies :: "jsstring \<Rightarrow> bool" where
  "qualifies line \<longleftrightarrow>
     contains line (js '' connected'') \<and> \<not> contains line (js ''disconnected'') \<and>
     matches_resolution line"

text \<open>Pieces put together again with the separator between them.\<close>

fun join :: "jsstring \<Rightarrow> jsstring list \<Rightarrow> jsstring" where
  "join sep [] = []"
| "join sep [p] = p"
| "join sep (p # q # ps) = p @ sep @ join sep (q # ps)"

text \<open>
  The properties of a display record that the theorems read, the records numbered
  \<open>n\<close>, \<open>n + 1\<close>, \<dots> in the order of the list, and the records that all
  carry one detection-method tag.
\<close>

definition record_id :: "jsval \<Rightarrow> error + jsval" where
  "record_id r = getprop r (js ''id'')"

definition detection_method :: "jsval \<Rightarrow> error + jsval" where
  "detection_method r = getprop r (js ''detection_method'')"

definition record_name :: "jsval \<Rightarrow> error + jsval" where
  "record_name r = getprop r (js ''name'')"

definition numbered_from :: "nat \<Rightarrow> jsval list \<Rightarrow> bool" where
  "numbered_from n ms \<longleftrightarrow>
     map record_id ms = map (\<lambda>i. Inr (JNum (real i))) [n ..< n + length ms]"

definition tagged :: "jsstring \<Rightarrow> jsval list \<Rightarrow> bool" where
  "tagged t ms \<longleftrightarrow> (\<forall>r \<in> set ms. detection_method r = Inr (JStr t))"

text \<open>The two shapes of the value of \<^verbatim>\<open>getMonitorInfo\<close>.\<close>

definition monitor_result :: "host \<Rightarrow> jsval list \<Rightarrow> jsval" where
  "monitor_result h ms =
     JObj [(js ''total_monitors'', JNum (real (length ms))),
           (js ''monitors'', JArr ms),
           (js ''system'', JStr (os_platform h))]"


text \<open>
  The names that the tool list of the server declares, the two shapes of a tool-call
  response, and the text of a successful one.
\<close>

definition tool_names :: "jsstring list" where
  "tool_names = map js [''get_cpu_info'', ''get_memory_info'', ''get_disk_usage'',
     ''get_running_processes'', ''get_system_info'', ''get_network_info'', ''get_quick_stats'',
     ''get_monitor_info'']"

definition text_block :: "jsstring \<Rightarrow> jsval" where
  "text_block t = JArr [JObj [(js ''type'', JStr (js ''text'')), (js ''text'', JStr t)]]"

definition content_ok :: "jsstring \<Rightarrow> jsval" where
  "content_ok t = JObj [(js ''content'', text_block t)]"

definition content_error :: "jsstring \<Rightarrow> jsval" where
  "content_error msg =
     JObj [(js ''content'', text_block (js ''Error: '' @ msg)), (js ''isError'', JBool True)]"

definition pretty :: "host \<Rightarrow> jsval \<Rightarrow> jsstring" where
  "pretty h result = (case result of JStr s \<Rightarrow> s | _ \<Rightarrow> JSON_stringify h result)"

text \<open>
  A comparator that \<^verbatim>\<open>Array.prototype.sort\<close> can rely on: any two elements are
  ordered one way or the other, and the order is transitive.
\<close>

definition consistent :: "('a \<Rightarrow> 'a \<Rightarrow> real) \<Rightarrow> bool" where
  "consistent cmp \<longleftrightarrow>
     (\<forall>a b. cmp a b \<le> 0 \<or> cmp b a \<le> 0) \<and>
     (\<forall>a b c. cmp a b \<le> 0 \<and> cmp b c \<le> 0 \<longrightarrow> cmp a c \<le> 0)"

section \<open>Example hosts\<close>

text \<open>
  Concrete hosts on which the theorems below are instantiated. On \<open>example_host\<close>, a
  Linux machine, the graphics query reports no display and every child process fails;
  the other hosts change one thing each. The arithmetic of the example hosts does not
  round; no theorem evaluates a formatted number.
\<close>

definition example_display :: display where
  "example_display =
     \<lparr>vendor = js ''Dell'', model = [], main = True, builtin = False,
      resolutionX = Some 2560, resolutionY = None\<rparr>"

definition proc_init :: proc where
  "proc_init = \<lparr>pid = 1, name = js ''init'', cpu = 1 / 2, memRss = 4096, memVss = None,
     state = js ''sleeping'', started = js ''2024-01-01 00:00:00'', user = js ''root''\<rparr>"

definition proc_node :: proc where
  "proc_node = \<lparr>pid = 812, name = js ''node'', cpu = 25 / 2, memRss = 90112, memVss = None,
     state = js ''running'', started = js ''2024-01-01 00:05:00'', user = []\<rparr>"

definition proc_bash :: proc where
  "proc_bash = \<lparr>pid = 97, name = js ''bash'', cpu = 3, memRss = 2048, memVss = None,
     state = js ''sleeping'', started = js ''2024-01-01 00:01:00'', user = js ''ann''\<rparr>"

definition example_processes :: processes where
  "example_processes =
     \<lparr>all = 3, running = 1, sleeping = 2, blocked = 0, list = [proc_init, proc_node, proc_bash]\<rparr>"

definition example_host :: host where
  "example_host =
     \<lparr>os_platform = js ''linux'', os_totalmem = 8589934592,
      si_graphics = Inr [], si_processes = Inr example_processes,
      execAsync = (\<lambda>cmd. Inl (Error (js ''Command failed''))),
      JSON_parse = (\<lambda>s. Inl (Error (js ''Unexpected end of JSON input''))),
      JSON_stringify = (\<lambda>v. js ''{}''),
      toFixed = (\<lambda>x n. js ''0.0''),
      float_div = (\<lambda>a b. a / b),
      float_mul = (\<lambda>a b. a * b),
      localeCompare = (\<lambda>a b. real (length a) - real (length b)),
      getCpuInfo = Inr (JObj [(js ''brand'', JStr (js ''Ryzen''))]),
      getMemoryInfo = Inr (JObj [(js ''total'', JStr (js ''8.00 GB''))]),
      getDiskUsage = Inr (JArr []),
      getSystemInfo = Inl (Error (js ''spawn ENOENT'')),
      getNetworkInfo = Inr (JObj [(js ''interfaces'', JArr [])]),
      getQuickStats = Inr (JObj [(js ''cpu_usage'', JStr (js ''1.0%''))])\<rparr>"

definition xrandr_output :: jsstring where
  "xrandr_output =
     js ''HDMI-1 connected primary 1920x1080+0+0 ...'' @ [0xA] @
     js ''   1920x1080 60.00*+'' @ [0xA] @
     js ''HDMI-2 disconnected''"

definition linux_host :: host where
  "linux_host = example_host\<lparr>execAsync := (\<lambda>cmd. Inr xrandr_output)\<rparr>"

definition mac_data :: jsval where
  "mac_data =
     JObj [(js ''SPDisplaysDataType'',
            JArr [JObj [(js ''spdisplays_ndrvs'',
                         JArr [JObj [(js ''_spdisplays_resolution'',
                                      JStr (js ''1920 x 1080 @ 60Hz''))]])]])]"

definition mac_host :: host where
  "mac_host = example_host\<lparr>os_platform := js ''darwin'',
     execAsync := (\<lambda>cmd. Inr (js ''{}'')), JSON_parse := (\<lambda>s. Inr mac_data)\<rparr>"



section \<open>Properties of the string functions\<close>

text \<open>
  \<^verbatim>\<open>includes\<close> is containment, the pieces of \<^verbatim>\<open>split\<close> joined with the
  separator give the string back, and no line of \<^verbatim>\<open>split('\n')\<close> holds a line
  feed. The first piece of \<^verbatim>\<open>split(/\s+/)\<close> is \<open>leading_text\<close>.
\<close>

lemma str_includes_contains: "str_includes s sub \<longleftrightarrow> contains s sub"
  unfolding contains_def
  by (induction s) (auto simp: sublist_Cons_right sublist_def[symmetric])

lemma str_split_not_Nil: "sep \<noteq> [] \<Longrightarrow> str_split sep s \<noteq> []"
  by (induction sep s rule: str_split.induct) (auto split: list.splits)

lemma join_Cons: "ps \<noteq> [] \<Longrightarrow> join sep (p # ps) = p @ sep @ join sep ps"
  by (cases ps) auto

lemma join_Cons_hd: "join sep ((c # p) # ps) = c # join sep (p # ps)"
  by (cases ps) auto

lemma str_split_join: "sep \<noteq> [] \<Longrightarrow> join sep (str_split sep s) = s"
proof (induction sep s rule: str_split.induct)
  case (1 sep)
  then show ?case by simp
next
  case (2 sep c cs)
  show ?case
  proof (cases "prefix sep (c # cs)")
    case True
    then have "c # cs = sep @ drop (length sep) (c # cs)"
      by (metis append_eq_conv_conj prefixE)
    moreover have "join sep ([] # str_split sep (drop (length sep) (c # cs))) =
        sep @ join sep (str_split sep (drop (length sep) (c # cs)))"
      using str_split_not_Nil[OF "2.prems"] by (simp add: join_Cons)
    ultimately show ?thesis using 2 True by simp
  next
    case False
    obtain p ps where sp: "str_split sep cs = p # ps"
      using str_split_not_Nil[OF "2.prems", of cs] by (cases "str_split sep cs") auto
    with 2 False show ?thesis by (simp add: join_Cons_hd)
  qed
qed

lemma str_split_lines: "l \<in> set (str_split [c] s) \<Longrightarrow> c \<notin> set l"
proof (induction "[c]" s arbitrary: l rule: str_split.induct)
  case 1
  then show ?case by simp
next
  case (2 d ds)
  show ?case
  proof (cases "d = c")
    case True
    with 2 show ?thesis by auto
  next
    case False
    with 2 show ?thesis by (auto split: list.splits)
  qed
qed

lemma split_ws_leading: "\<exists>ps. split_ws s = leading_text s # ps"
  unfolding leading_text_def
  by (induction s rule: split_ws.induct) (auto split: list.splits)

lemma leading_text_prefix:
  "(\<exists>rest. line = leading_text line @ rest \<and> (rest = [] \<or> isWhiteSpace (hd rest))) \<and>
   (\<forall>c \<in> set (leading_text line). \<not> isWhiteSpace c)"
proof -
  let ?rest = "dropWhile (\<lambda>c. \<not> isWhiteSpace c) line"
  have "line = leading_text line @ ?rest"
    by (simp add: leading_text_def)
  moreover have "?rest = [] \<or> isWhiteSpace (hd ?rest)"
    using hd_dropWhile[of "\<lambda>c. \<not> isWhiteSpace c" line] by blast
  moreover have "\<forall>c \<in> set (leading_text line). \<not> isWhiteSpace c"
    by (auto simp: leading_text_def dest: set_takeWhileD)
  ultimately show ?thesis by blast
qed

lemma numberToString_digit: "n < 10 \<Longrightarrow> numberToString n = [0x30 + of_nat n]"
  by (simp add: numberToString.simps)

lemma or_else_empty: "or_else (JStr s) (JStr []) = JStr s"
  by (simp add: or_else_def)

lemma or_else_undefined: "or_else JUndefined v = v"
  by (simp add: or_else_def)

text \<open>
  The text in front of the first white-space character of a line is its first token
  unless the line starts with white space; then it is empty.
\<close>

lemma leading_text_first_token:
  "line = [] \<or> \<not> isWhiteSpace (hd line) \<Longrightarrow> leading_text line = first_token line"
  by (cases line) (auto simp: leading_text_def first_token_def)

lemma leading_text_blank:
  "line \<noteq> [] \<Longrightarrow> isWhiteSpace (hd line) \<Longrightarrow> leading_text line = []"
  by (cases line) (auto simp: leading_text_def)

text \<open>
  \<^verbatim>\<open>split\<close> cuts at the first occurrence of the separator, and its first piece for
  a separator of one character is the text in front of that character.
\<close>

lemma contains_Cons: "contains s sub \<Longrightarrow> contains (c # s) sub"
  unfolding contains_def by (metis append_Cons)

lemma contains_prefix: "prefix sub s \<Longrightarrow> contains s sub"
  unfolding contains_def prefix_def by (metis append_Nil)

lemma str_split_first:
  assumes "sep \<noteq> []" and "\<not> contains (pre @ butlast sep) sep"
  shows "str_split sep (pre @ sep @ post) = pre # str_split sep post"
  using assms(2)
proof (induction pre)
  case Nil
  obtain c cs where s: "sep @ post = c # cs" using assms(1) by (cases sep) auto
  have "prefix sep (c # cs)" using s by (metis prefixI)
  moreover have "drop (length sep) (c # cs) = post" using s by (metis append_eq_conv_conj)
  ultimately show ?case using assms(1) s by simp
next
  case (Cons c pre)
  have np: "\<not> prefix sep (c # pre @ sep @ post)"
  proof
    assume p: "prefix sep (c # pre @ sep @ post)"
    have "c # pre @ sep @ post = ((c # pre) @ butlast sep) @ (last sep # post)"
      using assms(1) by simp
    then have "prefix ((c # pre) @ butlast sep) (c # pre @ sep @ post)"
      by (metis prefixI)
    moreover have "length sep \<le> length ((c # pre) @ butlast sep)"
      using assms(1) by (cases sep rule: rev_cases) auto
    ultimately have "prefix sep ((c # pre) @ butlast sep)"
      using p prefix_length_prefix by blast
    with Cons.prems show False using contains_prefix by blast
  qed
  have "\<not> contains (pre @ butlast sep) sep"
    using Cons.prems contains_Cons[of "pre @ butlast sep" sep c] by auto
  from Cons.IH[OF this] np assms(1) show ?case by simp
qed

lemma str_split_head:
  assumes "sep \<noteq> []"
  shows "\<exists>p ps. str_split sep s = p # ps \<and> (s = p \<or> (\<exists>rest. s = p @ sep @ rest))"
proof -
  obtain p ps where sp: "str_split sep s = p # ps"
    using str_split_not_Nil[OF assms, of s] by (cases "str_split sep s") auto
  have j: "join sep (p # ps) = s" using str_split_join[OF assms, of s] sp by simp
  show ?thesis
  proof (cases ps)
    case Nil
    with j sp show ?thesis by simp
  next
    case (Cons q qs)
    with j have "s = p @ sep @ join sep ps" by simp
    with sp show ?thesis by blast
  qed
qed

lemma split_space_head:
  "\<exists>ps. str_split [c] s = takeWhile (\<lambda>u. u \<noteq> c) s # ps"
proof (induction s)
  case Nil
  show ?case by simp
next
  case (Cons d ds)
  then show ?case by (cases "d = c") (auto split: list.splits)
qed

lemma first_occurrence:
  assumes "sep \<noteq> []" and "contains s sep"
  shows "\<exists>pre post. s = pre @ sep @ post \<and> \<not> contains (pre @ butlast sep) sep"
  using assms(2) unfolding str_includes_contains[symmetric]
proof (induction s)
  case Nil
  with assms(1) show ?case by simp
next
  case (Cons c cs)
  show ?case
  proof (cases "prefix sep (c # cs)")
    case True
    then obtain post where "c # cs = [] @ sep @ post" by (auto simp: prefix_def)
    moreover have "\<not> str_includes ([] @ butlast sep) sep"
    proof
      assume "str_includes ([] @ butlast sep) sep"
      then obtain a b where "butlast sep = a @ sep @ b"
        unfolding str_includes_contains contains_def by auto
      then have "length sep \<le> length (butlast sep)"
        by (metis length_append le_add1 le_add2 le_trans)
      then have "length sep \<le> length sep - 1" unfolding length_butlast .
      moreover have "1 \<le> length sep" using assms(1) by (cases sep) simp_all
      ultimately show False by arith
    qed
    ultimately show ?thesis by blast
  next
    case False
    with Cons.prems have "str_includes cs sep" by simp
    from Cons.IH[OF this] obtain pre post where cs: "cs = pre @ sep @ post"
      and n: "\<not> str_includes (pre @ butlast sep) sep" by blast
    have "\<not> prefix sep (c # pre @ butlast sep)"
    proof
      assume "prefix sep (c # pre @ butlast sep)"
      moreover have "prefix (c # pre @ butlast sep) (c # cs)"
        using cs assms(1) by (simp add: prefix_def) (metis append_butlast_last_id append_Cons append_assoc)
      ultimately show False using False prefix_order.trans by blast
    qed
    with n have "\<not> str_includes ((c # pre) @ butlast sep) sep" by simp
    moreover have "c # cs = (c # pre) @ sep @ post" using cs by simp
    ultimately show ?thesis by blast
  qed
qed

section \<open>The resolution pattern\<close>

text \<open>
  The scan of \<open>match_resolution\<close> finds a match exactly when the line matches the
  pattern, and what it returns is the leftmost match.
\<close>

lemma x_not_digit: "\<not> isDigit 0x78"
  by (simp add: isDigit_def)

lemma takeWhile_digits: "\<forall>c\<in>set w. isDigit c \<Longrightarrow> post = [] \<or> \<not> isDigit (hd post) \<Longrightarrow> takeWhile isDigit (w @ post) = w"
  by (cases post) (auto simp: takeWhile_tail)

lemma dropWhile_digits: "\<forall>c\<in>set w. isDigit c \<Longrightarrow> post = [] \<or> \<not> isDigit (hd post) \<Longrightarrow> dropWhile isDigit (w @ post) = post"
  by (cases post) (auto simp: dropWhile_append3)

lemma match_here_Some:
  "match_here s = Some (w, h) \<longleftrightarrow>
     (\<exists>post. s = w @ [0x78] @ h @ post \<and> digits w \<and> digits h \<and> (post = [] \<or> \<not> isDigit (hd post)))"
proof
  assume m: "match_here s = Some (w, h)"
  let ?r = "dropWhile isDigit s"
  from m have w: "w = takeWhile isDigit s" and wne: "w \<noteq> []"
    by (auto simp: match_here_def Let_def split: if_splits list.splits)
  from m obtain r' where r: "?r = 0x78 # r'" and h: "h = takeWhile isDigit r'" and hne: "h \<noteq> []"
    by (auto simp: match_here_def Let_def split: if_splits list.splits)
  have s: "s = w @ [0x78] @ h @ dropWhile isDigit r'"
    using takeWhile_dropWhile_id[of isDigit s] takeWhile_dropWhile_id[of isDigit r'] w r h by simp
  have "dropWhile isDigit r' = [] \<or> \<not> isDigit (hd (dropWhile isDigit r'))"
    using hd_dropWhile[of isDigit r'] by blast
  moreover have "digits w" using w wne by (auto simp: digits_def dest: set_takeWhileD)
  moreover have "digits h" using h hne by (auto simp: digits_def dest: set_takeWhileD)
  ultimately show "\<exists>post. s = w @ [0x78] @ h @ post \<and> digits w \<and> digits h \<and> (post = [] \<or> \<not> isDigit (hd post))"
    using s by blast
next
  assume "\<exists>post. s = w @ [0x78] @ h @ post \<and> digits w \<and> digits h \<and> (post = [] \<or> \<not> isDigit (hd post))"
  then obtain post where s: "s = w @ [0x78] @ h @ post" and dw: "digits w" and dh: "digits h"
    and p: "post = [] \<or> \<not> isDigit (hd post)" by blast
  have tw: "takeWhile isDigit s = w" and dr: "dropWhile isDigit s = 0x78 # h @ post"
    using s dw x_not_digit takeWhile_digits[of w "0x78 # h @ post"] dropWhile_digits[of w "0x78 # h @ post"]
    by (auto simp: digits_def)
  have th: "takeWhile isDigit (h @ post) = h"
    using dh p takeWhile_digits[of h post] by (auto simp: digits_def)
  show "match_here s = Some (w, h)"
    using tw dr th dw dh by (simp add: match_here_def Let_def digits_def)
qed

lemma match_here_weak:
  assumes "digits w" "digits h"
  shows "\<exists>h'. match_here (w @ [0x78] @ h @ post) = Some (w, h')"
proof -
  have tw: "takeWhile isDigit (w @ [0x78] @ h @ post) = w"
    and dr: "dropWhile isDigit (w @ [0x78] @ h @ post) = 0x78 # h @ post"
    using assms(1) x_not_digit takeWhile_digits[of w "0x78 # h @ post"] dropWhile_digits[of w "0x78 # h @ post"]
    by (auto simp: digits_def)
  obtain c h0 where h: "h = c # h0" "isDigit c" using assms(2) by (cases h) (auto simp: digits_def)
  then have "takeWhile isDigit (h @ post) \<noteq> []" by simp
  then show ?thesis using tw dr assms(1) by (simp add: match_here_def Let_def digits_def)
qed

lemma match_resolution_Some:
  "match_resolution s = Some g \<longleftrightarrow>
     (\<exists>pre rest. s = pre @ rest \<and> match_here rest = Some g \<and>
        (\<forall>pre' rest'. s = pre' @ rest' \<and> length pre' < length pre \<longrightarrow> match_here rest' = None))"
proof (induction s)
  case Nil
  show ?case by (auto simp: match_here_def)
next
  case (Cons c cs)
  show ?case
  proof (cases "match_here (c # cs)")
    case (Some g')
    have "(\<exists>pre rest. c # cs = pre @ rest \<and> match_here rest = Some g \<and>
        (\<forall>pre' rest'. c # cs = pre' @ rest' \<and> length pre' < length pre \<longrightarrow> match_here rest' = None)) \<longleftrightarrow> g = g'"
    proof
      assume "\<exists>pre rest. c # cs = pre @ rest \<and> match_here rest = Some g \<and>
        (\<forall>pre' rest'. c # cs = pre' @ rest' \<and> length pre' < length pre \<longrightarrow> match_here rest' = None)"
      then obtain pre rest where d: "c # cs = pre @ rest" "match_here rest = Some g"
        and mn: "\<forall>pre' rest'. c # cs = pre' @ rest' \<and> length pre' < length pre \<longrightarrow> match_here rest' = None" by blast
      have "pre = []"
      proof (rule ccontr)
        assume "pre \<noteq> []"
        then have "length [] < length pre" by simp
        with mn[rule_format, of "[]" "c # cs"] Some show False by simp
      qed
      with d Some show "g = g'" by simp
    next
      assume "g = g'"
      with Some have "c # cs = [] @ (c # cs) \<and> match_here (c # cs) = Some g \<and>
        (\<forall>pre' rest'. c # cs = pre' @ rest' \<and> length pre' < length ([]::jsstring) \<longrightarrow> match_here rest' = None)" by simp
      then show "\<exists>pre rest. c # cs = pre @ rest \<and> match_here rest = Some g \<and>
        (\<forall>pre' rest'. c # cs = pre' @ rest' \<and> length pre' < length pre \<longrightarrow> match_here rest' = None)" by blast
    qed
    with Some show ?thesis by auto
  next
    case None
    have "(\<exists>pre rest. c # cs = pre @ rest \<and> match_here rest = Some g \<and>
        (\<forall>pre' rest'. c # cs = pre' @ rest' \<and> length pre' < length pre \<longrightarrow> match_here rest' = None)) \<longleftrightarrow>
         (\<exists>pre rest. cs = pre @ rest \<and> match_here rest = Some g \<and>
        (\<forall>pre' rest'. cs = pre' @ rest' \<and> length pre' < length pre \<longrightarrow> match_here rest' = None))" (is "?L \<longleftrightarrow> ?R")
    proof
      assume ?L
      then obtain pre rest where d: "c # cs = pre @ rest" "match_here rest = Some g"
        and mn: "\<forall>pre' rest'. c # cs = pre' @ rest' \<and> length pre' < length pre \<longrightarrow> match_here rest' = None" by blast
      from d None obtain pre0 where pre: "pre = c # pre0" "cs = pre0 @ rest" by (cases pre) auto
      have "\<forall>pre' rest'. cs = pre' @ rest' \<and> length pre' < length pre0 \<longrightarrow> match_here rest' = None"
      proof (intro allI impI)
        fix pre' rest' assume "cs = pre' @ rest' \<and> length pre' < length pre0"
        then have "c # cs = (c # pre') @ rest' \<and> length (c # pre') < length pre" using pre by simp
        with mn show "match_here rest' = None" by blast
      qed
      with pre d show ?R by blast
    next
      assume ?R
      then obtain pre rest where d: "cs = pre @ rest" "match_here rest = Some g"
        and mn: "\<forall>pre' rest'. cs = pre' @ rest' \<and> length pre' < length pre \<longrightarrow> match_here rest' = None" by blast
      have "\<forall>pre' rest'. c # cs = pre' @ rest' \<and> length pre' < length (c # pre) \<longrightarrow> match_here rest' = None"
      proof (intro allI impI)
        fix pre' rest' assume a: "c # cs = pre' @ rest' \<and> length pre' < length (c # pre)"
        show "match_here rest' = None"
        proof (cases pre')
          case Nil
          with a None show ?thesis by simp
        next
          case (Cons c' p')
          with a have "cs = p' @ rest' \<and> length p' < length pre" by simp
          with mn show ?thesis by blast
        qed
      qed
      moreover have "c # cs = (c # pre) @ rest" using d by simp
      ultimately show ?L using d(2) by blast
    qed
    with None Cons.IH show ?thesis by simp
  qed
qed

lemma match_resolution_None:
  "match_resolution s = None \<longleftrightarrow> (\<forall>pre rest. s = pre @ rest \<longrightarrow> match_here rest = None)"
proof (induction s)
  case Nil
  show ?case by (simp add: match_here_def)
next
  case (Cons c cs)
  show ?case
  proof (cases "match_here (c # cs)")
    case (Some g)
    then have "\<not> (\<forall>pre rest. c # cs = pre @ rest \<longrightarrow> match_here rest = None)"
      by (metis append_Nil option.distinct(1))
    with Some show ?thesis by simp
  next
    case None
    have "(\<forall>pre rest. c # cs = pre @ rest \<longrightarrow> match_here rest = None) \<longleftrightarrow>
          (\<forall>pre rest. cs = pre @ rest \<longrightarrow> match_here rest = None)"
    proof
      assume a: "\<forall>pre rest. c # cs = pre @ rest \<longrightarrow> match_here rest = None"
      show "\<forall>pre rest. cs = pre @ rest \<longrightarrow> match_here rest = None"
      proof (intro allI impI)
        fix pre rest assume "cs = pre @ rest"
        then have "c # cs = (c # pre) @ rest" by simp
        with a show "match_here rest = None" by blast
      qed
    next
      assume a: "\<forall>pre rest. cs = pre @ rest \<longrightarrow> match_here rest = None"
      show "\<forall>pre rest. c # cs = pre @ rest \<longrightarrow> match_here rest = None"
      proof (intro allI impI)
        fix pre rest assume b: "c # cs = pre @ rest"
        show "match_here rest = None"
        proof (cases pre)
          case Nil with b None show ?thesis by simp
        next
          case (Cons c' p') with b a show ?thesis by simp
        qed
      qed
    qed
    with None Cons.IH show ?thesis by simp
  qed
qed

lemma matches_resolution_iff: "matches_resolution s \<longleftrightarrow> match_resolution s \<noteq> None"
proof
  assume "matches_resolution s"
  then obtain pre w h post where s: "s = pre @ w @ [0x78] @ h @ post" and d: "digits w" "digits h"
    unfolding matches_resolution_def by blast
  from match_here_weak[OF d, of post] obtain h' where "match_here (w @ [0x78] @ h @ post) = Some (w, h')"
    by blast
  with s show "match_resolution s \<noteq> None"
    unfolding match_resolution_None by (metis option.distinct(1))
next
  assume "match_resolution s \<noteq> None"
  then obtain w h where "match_resolution s = Some (w, h)" by auto
  then obtain pre rest where s: "s = pre @ rest" and m: "match_here rest = Some (w, h)"
    unfolding match_resolution_Some by blast
  from m obtain post where "rest = w @ [0x78] @ h @ post" "digits w" "digits h"
    unfolding match_here_Some by blast
  with s show "matches_resolution s" unfolding matches_resolution_def by blast
qed

lemma match_resolution_first:
  assumes "match_resolution s = Some (w, h)"
  shows "first_match s w h"
proof -
  from assms obtain pre rest where s: "s = pre @ rest" and m: "match_here rest = Some (w, h)"
    and mn: "\<forall>pre' rest'. s = pre' @ rest' \<and> length pre' < length pre \<longrightarrow> match_here rest' = None"
    unfolding match_resolution_Some by blast
  from m obtain post where r: "rest = w @ [0x78] @ h @ post" and d: "digits w" "digits h"
    and p: "post = [] \<or> \<not> isDigit (hd post)"
    unfolding match_here_Some by blast
  have "\<forall>pre' w' h' post'. s = pre' @ w' @ [0x78] @ h' @ post' \<and> digits w' \<and> digits h'
            \<longrightarrow> length pre \<le> length pre'"
  proof (intro allI impI)
    fix pre' w' h' post'
    assume a: "s = pre' @ w' @ [0x78] @ h' @ post' \<and> digits w' \<and> digits h'"
    then obtain h'' where "match_here (w' @ [0x78] @ h' @ post') = Some (w', h'')"
      using match_here_weak[of w' h' post'] by blast
    with mn a show "length pre \<le> length pre'"
      by (metis not_le_imp_less option.distinct(1))
  qed
  with s r d p show ?thesis unfolding first_match_def by blast
qed

section \<open>Facts about the example hosts\<close>

lemma platform_names:
  "js ''linux'' \<noteq> js ''win32''" "js ''linux'' \<noteq> js ''darwin''"
  "js ''darwin'' \<noteq> js ''win32''"
  by (simp_all add: js_def)



lemma linux_host_monitors:
  "getLinuxMonitors linux_host =
     [JObj [(js ''id'', JNum 1),
            (js ''name'', JStr (js ''HDMI-1'')),
            (js ''width'', JStr (js ''1920'')),
            (js ''height'', JStr (js ''1080'')),
            (js ''is_primary'', JBool True),
            (js ''detection_method'', JStr (js ''xrandr''))]]"
  by (simp add: getLinuxMonitors_def linux_host_def example_host_def xrandr_output_def
        linux_line_def js_def match_here_def isDigit_def isWhiteSpace_def)


section \<open>Linux: one record per qualifying line\<close>

lemma linux_line_Some_iff: "(\<exists>r. linux_line monitorId line = Some r) \<longleftrightarrow> qualifies line"
  by (auto simp: linux_line_def qualifies_def str_includes_contains matches_resolution_iff Let_def
           split: option.splits)

lemma linux_line_record:
  assumes "linux_line monitorId line = Some r"
  shows "\<exists>w h. first_match line w h \<and>
           r = JObj [(js ''id'', JNum (real monitorId)),
                     (js ''name'', JStr (leading_text line)),
                     (js ''width'', JStr w),
                     (js ''height'', JStr h),
                     (js ''is_primary'', JBool (contains line (js ''primary''))),
                     (js ''detection_method'', JStr (js ''xrandr''))]"
proof -
  obtain ps where sp: "split_ws line = leading_text line # ps" using split_ws_leading by blast
  from assms obtain w h where m: "match_resolution line = Some (w, h)"
    by (auto simp: linux_line_def Let_def split: if_splits option.splits)
  with assms sp have "r = JObj [(js ''id'', JNum (real monitorId)),
                     (js ''name'', JStr (leading_text line)),
                     (js ''width'', JStr w),
                     (js ''height'', JStr h),
                     (js ''is_primary'', JBool (contains line (js ''primary''))),
                     (js ''detection_method'', JStr (js ''xrandr''))]"
    by (auto simp: linux_line_def Let_def str_includes_contains split: if_splits)
  with match_resolution_first[OF m] show ?thesis by blast
qed

lemma linux_loop_length: "length (linux_loop n lines) = length (filter qualifies lines)"
proof (induction lines arbitrary: n)
  case Nil show ?case by simp
next
  case (Cons l ls)
  show ?case using linux_line_Some_iff[of n l] Cons.IH by (auto split: option.splits)
qed

lemma linux_loop_records:
  "r \<in> set (linux_loop n lines) \<Longrightarrow> \<exists>line \<in> set lines. \<exists>i. linux_line i line = Some r"
proof (induction lines arbitrary: n)
  case Nil then show ?case by simp
next
  case (Cons l ls)
  then show ?case by (fastforce split: option.splits)
qed

lemma getLinuxMonitors_lines:
  assumes "execAsync h (js ''xrandr --query'') = Inr out"
  shows "length (getLinuxMonitors h) = length (filter qualifies (str_split [0xA] out)) \<and>
         (\<forall>r \<in> set (getLinuxMonitors h).
            \<exists>l \<in> set (str_split [0xA] out). \<exists>i. linux_line i l = Some r)"
  using assms linux_loop_length[of 1 "str_split [0xA] out"]
    linux_loop_records[of _ 1 "str_split [0xA] out"]
  by (auto simp: getLinuxMonitors_def)

lemma hdmi1_line:
  "linux_line n (js ''HDMI-1 connected primary 1920x1080+0+0 ...'') =
     Some (JObj [(js ''id'', JNum (real n)),
                 (js ''name'', JStr (js ''HDMI-1'')),
                 (js ''width'', JStr (js ''1920'')),
                 (js ''height'', JStr (js ''1080'')),
                 (js ''is_primary'', JBool True),
                 (js ''detection_method'', JStr (js ''xrandr''))])"
  by (simp add: linux_line_def js_def match_here_def isDigit_def isWhiteSpace_def)

lemma hdmi2_line: "linux_line n (js ''HDMI-2 disconnected'') = None"
  by (simp add: linux_line_def js_def)

text \<open>
  Claim C2 as the specification states it fails on a line that starts with white
  space: the name of the record of \<^verbatim>\<open>" VGA-1 connected 1024x768+0+0"\<close> is the empty
  string, and the first whitespace-delimited token of that line is \<^verbatim>\<open>VGA-1\<close>.
\<close>

theorem linux_line_leading_blank_counterexample:
  "linux_line 1 (js '' VGA-1 connected 1024x768+0+0'') =
     Some (JObj [(js ''id'', JNum 1),
                 (js ''name'', JStr []),
                 (js ''width'', JStr (js ''1024'')),
                 (js ''height'', JStr (js ''768'')),
                 (js ''is_primary'', JBool False),
                 (js ''detection_method'', JStr (js ''xrandr''))]) \<and>
   first_token (js '' VGA-1 connected 1024x768+0+0'') = js ''VGA-1'' \<and>
   js ''VGA-1'' \<noteq> []"
  by (simp add: linux_line_def first_token_def js_def match_here_def isDigit_def isWhiteSpace_def)

text \<open>
  Claim C2, amended. On Linux, a line of the output of the display-configuration
  command produces a record if and only if it contains \<^verbatim>\<open>" connected"\<close>, does not
  contain \<^verbatim>\<open>"disconnected"\<close> and matches the pattern \<^verbatim>\<open><digits>x<digits>\<close>. The
  name of the record is the text of the line in front of its first white-space
  character: the first whitespace-delimited token of a line that does not start with
  white space, and the empty string for a line that does. Its width and height are the
  two groups of the leftmost match, and \<^verbatim>\<open>is_primary\<close> says whether the line
  contains \<^verbatim>\<open>"primary"\<close>. The line \<^verbatim>\<open>"HDMI-1 connected primary 1920x1080+0+0 ..."\<close>
  gives the record named HDMI-1 of width 1920 and height 1080 that is primary, and
  \<^verbatim>\<open>"HDMI-2 disconnected"\<close> gives none. The records of the whole function are those
  of the lines of the output, one for each qualifying line.
\<close>

theorem linux_line_spec:
  "((\<exists>r. linux_line monitorId line = Some r) \<longleftrightarrow> qualifies line) \<and>
   (\<forall>r. linux_line monitorId line = Some r \<longrightarrow>
      (\<exists>w h. first_match line w h \<and>
         r = JObj [(js ''id'', JNum (real monitorId)),
                   (js ''name'', JStr (leading_text line)),
                   (js ''width'', JStr w),
                   (js ''height'', JStr h),
                   (js ''is_primary'', JBool (contains line (js ''primary''))),
                   (js ''detection_method'', JStr (js ''xrandr''))])) \<and>
   (\<exists>rest. line = leading_text line @ rest \<and> (rest = [] \<or> isWhiteSpace (hd rest))) \<and>
   (\<forall>c \<in> set (leading_text line). \<not> isWhiteSpace c) \<and>
   (line = [] \<or> \<not> isWhiteSpace (hd line) \<longrightarrow> leading_text line = first_token line) \<and>
   (line \<noteq> [] \<and> isWhiteSpace (hd line) \<longrightarrow> leading_text line = []) \<and>
   linux_line monitorId (js ''HDMI-1 connected primary 1920x1080+0+0 ...'') =
     Some (JObj [(js ''id'', JNum (real monitorId)),
                 (js ''name'', JStr (js ''HDMI-1'')),
                 (js ''width'', JStr (js ''1920'')),
                 (js ''height'', JStr (js ''1080'')),
                 (js ''is_primary'', JBool True),
                 (js ''detection_method'', JStr (js ''xrandr''))]) \<and>
   linux_line monitorId (js ''HDMI-2 disconnected'') = None \<and>
   (execAsync h (js ''xrandr --query'') = Inr out \<longrightarrow>
      length (getLinuxMonitors h) = length (filter qualifies (str_split [0xA] out)) \<and>
      (\<forall>r \<in> set (getLinuxMonitors h).
         \<exists>l \<in> set (str_split [0xA] out). \<exists>i. linux_line i l = Some r))"
  using linux_line_Some_iff[of monitorId line] linux_line_record[of monitorId line]
    leading_text_prefix[of line] leading_text_first_token[of line] leading_text_blank[of line]
    hdmi1_line[of monitorId] hdmi2_line[of monitorId] getLinuxMonitors_lines[of h out]
  by blast

text \<open>
  The theorem on a line that qualifies and starts with its token, on a connected
  output without a mode, and on the output of the Linux host.
\<close>

theorem linux_line_spec_witness:
  "qualifies (js ''eDP-1 connected 1366x768+0+0'') \<and>
   linux_line 1 (js ''eDP-1 connected 1366x768+0+0'') =
     Some (JObj [(js ''id'', JNum 1),
                 (js ''name'', JStr (js ''eDP-1'')),
                 (js ''width'', JStr (js ''1366'')),
                 (js ''height'', JStr (js ''768'')),
                 (js ''is_primary'', JBool False),
                 (js ''detection_method'', JStr (js ''xrandr''))]) \<and>
   first_token (js ''eDP-1 connected 1366x768+0+0'') = js ''eDP-1'' \<and>
   leading_text (js '' VGA-1 connected 1024x768+0+0'') = [] \<and>
   \<not> qualifies (js ''DP-1 connected (normal)'') \<and>
   linux_line 1 (js ''DP-1 connected (normal)'') = None \<and>
   execAsync linux_host (js ''xrandr --query'') = Inr xrandr_output \<and>
   length (filter qualifies (str_split [0xA] xrandr_output)) = 1"
proof -
  have a: "linux_line 1 (js ''eDP-1 connected 1366x768+0+0'') =
     Some (JObj [(js ''id'', JNum 1),
                 (js ''name'', JStr (js ''eDP-1'')),
                 (js ''width'', JStr (js ''1366'')),
                 (js ''height'', JStr (js ''768'')),
                 (js ''is_primary'', JBool False),
                 (js ''detection_method'', JStr (js ''xrandr''))])"
    by (simp add: linux_line_def js_def match_here_def isDigit_def isWhiteSpace_def)
  have b: "linux_line 1 (js ''DP-1 connected (normal)'') = None"
    by (simp add: linux_line_def js_def match_here_def isDigit_def isWhiteSpace_def)
  have c: "execAsync linux_host (js ''xrandr --query'') = Inr xrandr_output"
    by (simp add: linux_host_def)
  have d: "length (getLinuxMonitors linux_host) = 1"
    by (simp add: linux_host_monitors)
  have t: "\<not> isWhiteSpace (hd (js ''eDP-1 connected 1366x768+0+0''))"
    "leading_text (js ''eDP-1 connected 1366x768+0+0'') = js ''eDP-1''"
    by (simp_all add: leading_text_def js_def isWhiteSpace_def)
  have v: "js '' VGA-1 connected 1024x768+0+0'' \<noteq> []"
    "isWhiteSpace (hd (js '' VGA-1 connected 1024x768+0+0''))"
    by (simp_all add: js_def isWhiteSpace_def)
  note E = linux_line_spec[of 1 "js ''eDP-1 connected 1366x768+0+0''" linux_host xrandr_output]
  note D = linux_line_spec[of 1 "js ''DP-1 connected (normal)''" linux_host xrandr_output]
  note V = linux_line_spec[of 1 "js '' VGA-1 connected 1024x768+0+0''" linux_host xrandr_output]
  have q1: "qualifies (js ''eDP-1 connected 1366x768+0+0'')" using E a by blast
  have q2: "\<not> qualifies (js ''DP-1 connected (normal)'')" using D b by auto
  have n: "length (filter qualifies (str_split [0xA] xrandr_output)) = 1" using E c d by metis
  have f: "first_token (js ''eDP-1 connected 1366x768+0+0'') = js ''eDP-1''" using E t by metis
  have l: "leading_text (js '' VGA-1 connected 1024x768+0+0'') = []" using V v by blast
  show ?thesis using q1 a f l q2 b c n by blast
qed

section \<open>macOS: the resolution string\<close>

lemma macResolution_example:
  "macResolution (JStr (js ''1920 x 1080 @ 60Hz'')) = Inr (JStr (js ''1920''), JStr (js ''1080''))"
  by (simp add: macResolution_def or_else_def js_def trim_def isWhiteSpace_def)

lemma macResolution_unknown:
  "\<not> contains s (js '' x '') \<Longrightarrow>
   macResolution (JStr s) = Inr (JStr (js ''Unknown''), JStr (js ''Unknown''))"
  by (simp add: macResolution_def or_else_empty str_includes_contains)

lemma mac_monitor_resolution:
  assumes "getprop monitor (js ''_spdisplays_resolution'') = Inr (JStr s)"
    and "macResolution (JStr s) = Inr (w, h)"
    and "mac_monitor n monitor = Inr r"
  shows "getprop r (js ''width'') = Inr w \<and> getprop r (js ''height'') = Inr h"
  using assms by (auto simp: mac_monitor_def js_def split: sum.splits)

lemma mac_monitor_total:
  assumes "map_of kvs (js ''_spdisplays_resolution'') = Some (JStr s)"
    and "\<forall>v. map_of kvs (js ''_name'') = Some v \<longrightarrow> (\<exists>nm. v = JStr nm)"
  shows "\<exists>r. mac_monitor n (JObj kvs) = Inr r"
proof -
  have "\<exists>p. macResolution (JStr s) = Inr p"
    by (auto simp: macResolution_def or_else_empty Let_def split: list.splits bool.splits)
  moreover have "\<exists>b. val_includes
      (or_else (case map_of kvs (js ''_name'') of None \<Rightarrow> JUndefined | Some v \<Rightarrow> v) (JStr []))
      (js ''Retina'') = Inr b"
  proof (cases "map_of kvs (js ''_name'')")
    case None
    then show ?thesis by (simp add: or_else_undefined)
  next
    case (Some v)
    with assms(2) obtain nm where "v = JStr nm" by blast
    with Some show ?thesis by (simp add: or_else_empty)
  qed
  ultimately show ?thesis
    using assms(1) by (auto simp: mac_monitor_def split: sum.splits prod.splits)
qed


text \<open>
  A string that contains \<^verbatim>\<open>" x "\<close> is cut at the first one: the width is
  everything in front of it, trimmed, and the height is what follows it up to the next
  space.
\<close>

lemma macResolution_split:
  assumes "\<not> contains (pre @ js '' x'') (js '' x '')"
  shows "macResolution (JStr (pre @ js '' x '' @ post)) =
           Inr (JStr (trim pre), JStr (takeWhile (\<lambda>c. c \<noteq> 0x20) post))"
proof -
  let ?sep = "js '' x ''"
  let ?s = "pre @ ?sep @ post"
  have sep: "?sep \<noteq> []" "butlast ?sep = js '' x''" "?sep = 0x20 # js ''x ''"
    by (simp_all add: js_def)
  have inc: "str_includes ?s ?sep"
    unfolding str_includes_contains contains_def by blast
  have ne: "?s \<noteq> []" using sep(1) by simp
  have sp: "str_split ?sep ?s = pre # str_split ?sep post"
    using str_split_first[OF sep(1), of pre post] assms sep(2) by simp
  obtain p1 ps where p1: "str_split ?sep post = p1 # ps"
    and c: "post = p1 \<or> (\<exists>rest. post = p1 @ ?sep @ rest)"
    using str_split_head[OF sep(1), of post] by blast
  have tw: "takeWhile (\<lambda>c. c \<noteq> 0x20) p1 = takeWhile (\<lambda>c. c \<noteq> 0x20) post"
  proof -
    from c show ?thesis
    proof
      assume "post = p1" then show ?thesis by simp
    next
      assume "\<exists>rest. post = p1 @ ?sep @ rest"
      then obtain rest where "post = p1 @ 0x20 # (js ''x '' @ rest)" using sep(3) by auto
      then show ?thesis by (simp add: takeWhile_tail)
    qed
  qed
  obtain qs where h: "str_split [0x20] p1 = takeWhile (\<lambda>c. c \<noteq> 0x20) p1 # qs"
    using split_space_head[of "0x20" p1] by blast
  have sp1: "js '' '' = [0x20]" by (simp add: js_def)
  have "or_else (JStr ?s) (JStr []) = JStr ?s" by (rule or_else_empty)
  then show ?thesis
    using inc sp p1 h tw sp1 by (simp add: macResolution_def)
qed

lemma macResolution_contains:
  assumes "contains s (js '' x '')"
  shows "\<exists>pre post. s = pre @ js '' x '' @ post \<and> \<not> contains (pre @ js '' x'') (js '' x '') \<and>
           macResolution (JStr s) =
             Inr (JStr (trim pre), JStr (takeWhile (\<lambda>c. c \<noteq> 0x20) post))"
proof -
  have sep: "js '' x '' \<noteq> []" "butlast (js '' x '') = js '' x''"
    by (simp_all add: js_def)
  from first_occurrence[OF sep(1) assms] obtain pre post where
    "s = pre @ js '' x '' @ post" "\<not> contains (pre @ js '' x'') (js '' x '')"
    unfolding sep(2) by blast
  with macResolution_split[of pre post] show ?thesis by blast
qed

text \<open>
  Claim C4 as the specification states it fails where it describes the parse: the
  width is not the leading token of the text in front of \<^verbatim>\<open>" x "\<close>. The string
  \<^verbatim>\<open>"Resolution: 1920 x 1080"\<close> yields the width \<^verbatim>\<open>"Resolution: 1920"\<close>, whose leading
  token is \<^verbatim>\<open>"Resolution:"\<close>.
\<close>

theorem macResolution_leading_token_counterexample:
  "macResolution (JStr (js ''Resolution: 1920 x 1080'')) =
     Inr (JStr (js ''Resolution: 1920''), JStr (js ''1080'')) \<and>
   first_token (js ''Resolution: 1920'') = js ''Resolution:'' \<and>
   js ''Resolution: 1920'' \<noteq> js ''Resolution:''"
  by (simp add: macResolution_def or_else_def first_token_def js_def trim_def isWhiteSpace_def)

text \<open>
  Claim C4, amended. On macOS the resolution string \<^verbatim>\<open>"1920 x 1080 @ 60Hz"\<close> yields
  width \<^verbatim>\<open>"1920"\<close> and height \<^verbatim>\<open>"1080"\<close>. Every resolution string that contains
  \<^verbatim>\<open>" x "\<close> is cut at the first one: the width is the whole text in front of it with
  the white space at its two ends removed, and the height is the text behind it up to
  the next space. Every resolution string that does not contain \<^verbatim>\<open>" x "\<close> yields
  \<^verbatim>\<open>"Unknown"\<close> for both, without an exception. What the parse yields is what the
  record of the monitor entry carries, and an entry whose resolution is a string and
  whose name is a string or absent always gives a record.
\<close>

theorem macResolution_spec:
  "macResolution (JStr (js ''1920 x 1080 @ 60Hz'')) = Inr (JStr (js ''1920''), JStr (js ''1080'')) \<and>
   (\<forall>pre post. s = pre @ js '' x '' @ post \<and> \<not> contains (pre @ js '' x'') (js '' x '') \<longrightarrow>
      macResolution (JStr s) =
        Inr (JStr (trim pre), JStr (takeWhile (\<lambda>c. c \<noteq> 0x20) post))) \<and>
   (contains s (js '' x '') \<longrightarrow>
      (\<exists>pre post. s = pre @ js '' x '' @ post \<and> \<not> contains (pre @ js '' x'') (js '' x '') \<and>
         macResolution (JStr s) =
           Inr (JStr (trim pre), JStr (takeWhile (\<lambda>c. c \<noteq> 0x20) post)))) \<and>
   (\<not> contains s (js '' x '') \<longrightarrow>
      macResolution (JStr s) = Inr (JStr (js ''Unknown''), JStr (js ''Unknown''))) \<and>
   (\<forall>monitor n r w h.
      getprop monitor (js ''_spdisplays_resolution'') = Inr (JStr s) \<and>
      macResolution (JStr s) = Inr (w, h) \<and> mac_monitor n monitor = Inr r \<longrightarrow>
      getprop r (js ''width'') = Inr w \<and> getprop r (js ''height'') = Inr h) \<and>
   (\<forall>kvs n.
      map_of kvs (js ''_spdisplays_resolution'') = Some (JStr s) \<and>
      (\<forall>v. map_of kvs (js ''_name'') = Some v \<longrightarrow> (\<exists>nm. v = JStr nm)) \<longrightarrow>
      (\<exists>r. mac_monitor n (JObj kvs) = Inr r))"
  using macResolution_example macResolution_split macResolution_contains[of s]
    macResolution_unknown[of s] mac_monitor_resolution[of _ s] mac_monitor_total[of _ s]
  by blast

text \<open>
  The theorem on \<^verbatim>\<open>"2560 x 1440"\<close>, on \<^verbatim>\<open>" 3840 x  2160"\<close>, whose height is empty
  because a space follows the \<^verbatim>\<open>" x "\<close>, and on \<^verbatim>\<open>"1920x1080"\<close>, which has no
  \<^verbatim>\<open>" x "\<close>.
\<close>

theorem macResolution_spec_witness:
  "macResolution (JStr (js ''2560 x 1440'')) = Inr (JStr (js ''2560''), JStr (js ''1440'')) \<and>
   macResolution (JStr (js '' 3840 x  2160'')) = Inr (JStr (js ''3840''), JStr []) \<and>
   \<not> contains (js ''1920x1080'') (js '' x '') \<and>
   macResolution (JStr (js ''1920x1080'')) = Inr (JStr (js ''Unknown''), JStr (js ''Unknown'')) \<and>
   mac_monitor 1 (JObj [(js ''_name'', JStr (js ''Color LCD'')),
                        (js ''_spdisplays_resolution'', JStr (js ''1920x1080''))]) =
     Inr (JObj [(js ''id'', JNum 1),
                (js ''name'', JStr (js ''Color LCD'')),
                (js ''width'', JStr (js ''Unknown'')),
                (js ''height'', JStr (js ''Unknown'')),
                (js ''retina'', JBool False),
                (js ''detection_method'', JStr (js ''system_profiler''))])"
proof -
  have c: "\<not> contains (js ''1920x1080'') (js '' x '')"
    unfolding str_includes_contains[symmetric] by (simp add: js_def)
  have m: "mac_monitor 1 (JObj [(js ''_name'', JStr (js ''Color LCD'')),
                        (js ''_spdisplays_resolution'', JStr (js ''1920x1080''))]) =
     Inr (JObj [(js ''id'', JNum 1),
                (js ''name'', JStr (js ''Color LCD'')),
                (js ''width'', JStr (js ''Unknown'')),
                (js ''height'', JStr (js ''Unknown'')),
                (js ''retina'', JBool False),
                (js ''detection_method'', JStr (js ''system_profiler''))])"
    by (simp add: mac_monitor_def macResolution_def or_else_def js_def)
  have a1: "js ''2560 x 1440'' = js ''2560'' @ js '' x '' @ js ''1440''"
    and a2: "\<not> contains (js ''2560'' @ js '' x'') (js '' x '')"
    and a3: "trim (js ''2560'') = js ''2560''"
    and a4: "takeWhile (\<lambda>c. c \<noteq> 0x20) (js ''1440'') = js ''1440''"
    unfolding str_includes_contains[symmetric]
    by (simp_all add: js_def trim_def isWhiteSpace_def)
  have b1: "js '' 3840 x  2160'' = js '' 3840'' @ js '' x '' @ js '' 2160''"
    and b2: "\<not> contains (js '' 3840'' @ js '' x'') (js '' x '')"
    and b3: "trim (js '' 3840'') = js ''3840''"
    and b4: "takeWhile (\<lambda>c. c \<noteq> 0x20) (js '' 2160'') = []"
    unfolding str_includes_contains[symmetric]
    by (simp_all add: js_def trim_def isWhiteSpace_def)
  have r1: "macResolution (JStr (js ''2560 x 1440'')) = Inr (JStr (js ''2560''), JStr (js ''1440''))"
    using macResolution_spec[of "js ''2560 x 1440''"] a1 a2 a3 a4 by metis
  have r2: "macResolution (JStr (js '' 3840 x  2160'')) = Inr (JStr (js ''3840''), JStr [])"
    using macResolution_spec[of "js '' 3840 x  2160''"] b1 b2 b3 b4 by metis
  from macResolution_spec[of "js ''1920x1080''"] c m r1 r2 show ?thesis by simp
qed

section \<open>Numbering and tags of each strategy\<close>

lemma numbered_from_Nil [simp]: "numbered_from n []"
  by (simp add: numbered_from_def)

lemma numbered_from_Cons:
  "numbered_from n (r # rs) \<longleftrightarrow> record_id r = Inr (JNum (real n)) \<and> numbered_from (Suc n) rs"
proof -
  have "[n ..< n + length (r # rs)] = n # [Suc n ..< Suc n + length rs]"
    by (simp add: upt_conv_Cons del: upt_Suc)
  then show ?thesis
    unfolding numbered_from_def by (simp del: upt_Suc length_Cons)
qed

lemma numbered_from_append:
  "numbered_from n (rs @ rs') \<longleftrightarrow> numbered_from n rs \<and> numbered_from (n + length rs) rs'"
  by (induction rs arbitrary: n) (auto simp: numbered_from_Cons)

lemma tagged_Nil [simp]: "tagged t []"
  by (simp add: tagged_def)

lemma tagged_Cons: "tagged t (r # rs) \<longleftrightarrow> detection_method r = Inr (JStr t) \<and> tagged t rs"
  by (simp add: tagged_def)

lemma tagged_append: "tagged t (rs @ rs') \<longleftrightarrow> tagged t rs \<and> tagged t rs'"
  by (auto simp: tagged_def)

subsection \<open>The cross-platform graphics query\<close>

lemma si_monitor_id: "record_id (si_monitor i d) = Inr (JNum (real (i + 1)))"
  by (simp add: si_monitor_def record_id_def js_def)

lemma si_monitor_tag: "detection_method (si_monitor i d) = Inr (JStr (js ''systeminformation''))"
  by (simp add: si_monitor_def detection_method_def js_def)

lemma si_enumerate_numbered:
  "numbered_from (Suc n) (map (\<lambda>(index, d). si_monitor index d) (enumerate n ds))"
  by (induction ds arbitrary: n) (auto simp: numbered_from_Cons si_monitor_id)

lemma si_monitors_numbered: "numbered_from 1 (si_monitors ds)"
  using si_enumerate_numbered[of 0 ds] by (simp add: si_monitors_def)

lemma si_monitors_tagged: "tagged (js ''systeminformation'') (si_monitors ds)"
  by (auto simp: tagged_def si_monitors_def si_monitor_tag)

lemma si_monitors_length: "length (si_monitors ds) = length ds"
  by (simp add: si_monitors_def)

lemma si_monitors_empty: "si_monitors ds = [] \<longleftrightarrow> ds = []"
  by (simp add: si_monitors_def enumerate_eq_zip)

subsection \<open>Windows\<close>

lemma win_monitor_id: "win_monitor i m = Inr r \<Longrightarrow> record_id r = Inr (JNum (real (i + 1)))"
  by (auto simp: win_monitor_def record_id_def js_def split: sum.splits)

lemma win_monitor_tag: "win_monitor i m = Inr r \<Longrightarrow> detection_method r = Inr (JStr (js ''wmi''))"
  by (auto simp: win_monitor_def detection_method_def js_def split: sum.splits)

lemma win_loop_numbered: "numbered_from (Suc i) (win_loop i ms)"
  by (induction ms arbitrary: i) (auto simp: numbered_from_Cons win_monitor_id split: sum.splits)

lemma win_loop_tagged: "tagged (js ''wmi'') (win_loop i ms)"
  by (induction ms arbitrary: i) (auto simp: tagged_Cons win_monitor_tag split: sum.splits)

lemma getWindowsMonitors_numbered: "numbered_from 1 (getWindowsMonitors h)"
  using win_loop_numbered[of 0] by (auto simp: getWindowsMonitors_def split: sum.splits)

lemma getWindowsMonitors_tagged: "tagged (js ''wmi'') (getWindowsMonitors h)"
  by (auto simp: getWindowsMonitors_def win_loop_tagged split: sum.splits)

subsection \<open>macOS\<close>

text \<open>
  An exception in one of the two loops leaves the records pushed before it; they are
  still numbered consecutively.
\<close>

lemma mac_monitor_id: "mac_monitor n m = Inr r \<Longrightarrow> record_id r = Inr (JNum (real n))"
  by (auto simp: mac_monitor_def record_id_def js_def split: sum.splits prod.splits)

lemma mac_monitor_tag:
  "mac_monitor n m = Inr r \<Longrightarrow> detection_method r = Inr (JStr (js ''system_profiler''))"
  by (auto simp: mac_monitor_def detection_method_def js_def split: sum.splits prod.splits)

lemma mac_inner_numbered:
  "mac_inner n ms = (rs, st) \<Longrightarrow>
     numbered_from n rs \<and> tagged (js ''system_profiler'') rs \<and> (\<forall>k. st = Inr k \<longrightarrow> k = n + length rs)"
proof (induction ms arbitrary: n rs st)
  case Nil
  then show ?case by auto
next
  case (Cons m ms)
  show ?case
  proof (cases "mac_monitor n m")
    case (Inl e)
    with Cons.prems show ?thesis by auto
  next
    case (Inr r)
    obtain rs' st' where i: "mac_inner (n + 1) ms = (rs', st')" by (cases "mac_inner (n + 1) ms")
    with Cons.prems Inr have rs: "rs = r # rs'" "st = st'" by auto
    from Cons.IH[OF i] mac_monitor_id[OF Inr] mac_monitor_tag[OF Inr] rs show ?thesis
      by (auto simp: numbered_from_Cons tagged_Cons)
  qed
qed

lemma mac_outer_numbered:
  "mac_outer n ds = (rs, st) \<Longrightarrow>
     numbered_from n rs \<and> tagged (js ''system_profiler'') rs \<and> (\<forall>k. st = Inr k \<longrightarrow> k = n + length rs)"
proof (induction ds arbitrary: n rs st)
  case Nil
  then show ?case by auto
next
  case (Cons d ds)
  show ?case
  proof (cases "mac_displayInfo d")
    case (Inl e)
    with Cons.prems show ?thesis by auto
  next
    case (Inr info)
    obtain rs1 st1 where i: "mac_inner n info = (rs1, st1)" by (cases "mac_inner n info")
    note in1 = mac_inner_numbered[OF i]
    show ?thesis
    proof (cases st1)
      case (Inl e)
      with Cons.prems Inr i in1 show ?thesis by auto
    next
      case (Inr k)
      with in1 have k: "k = n + length rs1" by simp
      obtain rs2 st2 where o: "mac_outer k ds = (rs2, st2)" by (cases "mac_outer k ds")
      from Cons.prems \<open>mac_displayInfo d = Inr info\<close> i Inr o have rs: "rs = rs1 @ rs2" "st = st2" by auto
      from Cons.IH[OF o] in1 k rs show ?thesis
        by (auto simp: numbered_from_append tagged_append)
    qed
  qed
qed

lemma getMacOSMonitors_numbered: "numbered_from 1 (getMacOSMonitors h)"
proof -
  have "numbered_from 1 (fst (mac_outer 1 ds))" for ds
    using mac_outer_numbered[of 1 ds] by (cases "mac_outer 1 ds") auto
  then show ?thesis by (auto simp: getMacOSMonitors_def split: sum.splits)
qed

lemma getMacOSMonitors_tagged: "tagged (js ''system_profiler'') (getMacOSMonitors h)"
proof -
  have "tagged (js ''system_profiler'') (fst (mac_outer 1 ds))" for ds
    using mac_outer_numbered[of 1 ds] by (cases "mac_outer 1 ds") auto
  then show ?thesis by (auto simp: getMacOSMonitors_def split: sum.splits)
qed

subsection \<open>Linux\<close>

lemma linux_line_id: "linux_line n l = Some r \<Longrightarrow> record_id r = Inr (JNum (real n))"
  by (auto simp: linux_line_def record_id_def js_def Let_def split: if_splits option.splits)

lemma linux_line_tag: "linux_line n l = Some r \<Longrightarrow> detection_method r = Inr (JStr (js ''xrandr''))"
  by (auto simp: linux_line_def detection_method_def js_def Let_def split: if_splits option.splits)

lemma linux_loop_numbered: "numbered_from n (linux_loop n ls)"
  by (induction ls arbitrary: n) (auto simp: numbered_from_Cons linux_line_id split: option.splits)

lemma linux_loop_tagged: "tagged (js ''xrandr'') (linux_loop n ls)"
  by (induction ls arbitrary: n) (auto simp: tagged_Cons linux_line_tag split: option.splits)

lemma getLinuxMonitors_numbered: "numbered_from 1 (getLinuxMonitors h)"
  by (auto simp: getLinuxMonitors_def linux_loop_numbered split: sum.splits)

lemma getLinuxMonitors_tagged: "tagged (js ''xrandr'') (getLinuxMonitors h)"
  by (auto simp: getLinuxMonitors_def linux_loop_tagged split: sum.splits)

subsection \<open>The platform-specific strategy and the fallback\<close>

lemma platformMonitors_numbered: "numbered_from 1 (platformMonitors h)"
  using getWindowsMonitors_numbered[of h] getMacOSMonitors_numbered[of h]
    getLinuxMonitors_numbered[of h]
  by (simp add: platformMonitors_def)

lemma platformMonitors_tagged:
  "tagged (js ''wmi'') (platformMonitors h) \<or> tagged (js ''system_profiler'') (platformMonitors h) \<or>
   tagged (js ''xrandr'') (platformMonitors h)"
  using getWindowsMonitors_tagged[of h] getMacOSMonitors_tagged[of h] getLinuxMonitors_tagged[of h]
  by (auto simp: platformMonitors_def)

lemma fallback_numbered: "numbered_from 1 [fallbackMonitor]"
  by (simp add: numbered_from_def fallbackMonitor_def record_id_def js_def)

lemma fallback_tagged: "tagged (js ''fallback'') [fallbackMonitor]"
  by (simp add: tagged_def fallbackMonitor_def detection_method_def js_def)

section \<open>The strategy chain of getMonitorInfo\<close>

lemma getMonitorInfo_cases:
  assumes "si_graphics h = Inr ds"
  shows "getMonitorInfo h = monitor_result h
           (if ds \<noteq> [] then si_monitors ds
            else if platformMonitors h \<noteq> [] then platformMonitors h
            else [fallbackMonitor])"
  using assms by (simp add: getMonitorInfo_def monitor_result_def Let_def si_monitors_empty)




text \<open>
  Claim C1. In every call of \<^verbatim>\<open>get_monitor_info\<close> whose graphics query returns, the
  output of exactly one strategy is the whole list of monitors: if the cross-platform
  graphics query reports N displays, N at least 1, the list is exactly the N records
  built from them; if it reports none and the platform-specific strategy yields at
  least one record, the list is exactly its records; the list is always the output of
  one of the three strategies, and all its records carry one and the same tag.
\<close>

theorem getMonitorInfo_one_strategy:
  assumes "si_graphics h = Inr ds"
  shows "\<exists>ms. getMonitorInfo h = monitor_result h ms \<and>
           (ds \<noteq> [] \<longrightarrow> ms = si_monitors ds \<and> length ms = length ds) \<and>
           (ds = [] \<and> platformMonitors h \<noteq> [] \<longrightarrow> ms = platformMonitors h) \<and>
           (ms = si_monitors ds \<or> ms = platformMonitors h \<or> ms = [fallbackMonitor]) \<and>
           (\<exists>t. tagged t ms)"
proof -
  let ?ms = "if ds \<noteq> [] then si_monitors ds
            else if platformMonitors h \<noteq> [] then platformMonitors h
            else [fallbackMonitor]"
  have "\<exists>t. tagged t ?ms"
    using si_monitors_tagged[of ds] platformMonitors_tagged[of h] fallback_tagged by auto
  with getMonitorInfo_cases[OF assms] show ?thesis
    by (intro exI[of _ ?ms]) (simp add: si_monitors_length)
qed

text \<open>
  The theorem on a Linux host where both the graphics query and \<^verbatim>\<open>xrandr\<close> find a
  display: the result holds the record of the graphics query alone.
\<close>

theorem getMonitorInfo_one_strategy_witness:
  "si_graphics (linux_host\<lparr>si_graphics := Inr [example_display]\<rparr>) = Inr [example_display] \<and>
   getLinuxMonitors (linux_host\<lparr>si_graphics := Inr [example_display]\<rparr>) \<noteq> [] \<and>
   getMonitorInfo (linux_host\<lparr>si_graphics := Inr [example_display]\<rparr>) =
     monitor_result linux_host [si_monitor 0 example_display] \<and>
   si_graphics linux_host = Inr [] \<and>
   platformMonitors linux_host \<noteq> [] \<and>
   getMonitorInfo linux_host = monitor_result linux_host (getLinuxMonitors linux_host)"
proof -
  let ?h = "linux_host\<lparr>si_graphics := Inr [example_display]\<rparr>"
  have g: "si_graphics ?h = Inr [example_display]" by simp
  have "getLinuxMonitors ?h = getLinuxMonitors linux_host"
    by (simp add: getLinuxMonitors_def)
  then have l: "getLinuxMonitors ?h \<noteq> []"
    by (simp add: linux_host_monitors)
  have g': "si_graphics linux_host = Inr []"
    by (simp add: linux_host_def example_host_def)
  have p: "platformMonitors linux_host = getLinuxMonitors linux_host"
    using platform_names by (simp add: platformMonitors_def linux_host_def example_host_def)
  then have p': "platformMonitors linux_host \<noteq> []"
    by (simp add: linux_host_monitors)
  from getMonitorInfo_one_strategy[OF g] getMonitorInfo_one_strategy[OF g'] g l g' p p'
  show ?thesis
    by (auto simp: si_monitors_def monitor_result_def)
qed

text \<open>
  Claim C6. In every successful result of \<^verbatim>\<open>get_monitor_info\<close> the list of
  monitors is not empty, \<^verbatim>\<open>total_monitors\<close> is its length, and the ids of the
  records are 1, 2, \<dots>, N in the order of the list. When the graphics query and
  the platform-specific strategy both yield no record, the list is the one synthetic
  record, tagged \<^verbatim>\<open>fallback\<close>, named \<^verbatim>\<open>Unknown Monitor\<close>, of unknown width and
  height.
\<close>

theorem getMonitorInfo_numbered:
  assumes "si_graphics h = Inr ds"
  shows "\<exists>ms. getMonitorInfo h = monitor_result h ms \<and> ms \<noteq> [] \<and> numbered_from 1 ms \<and>
           (ds = [] \<and> platformMonitors h = [] \<longrightarrow>
              ms = [fallbackMonitor] \<and>
              detection_method fallbackMonitor = Inr (JStr (js ''fallback'')) \<and>
              record_name fallbackMonitor = Inr (JStr (js ''Unknown Monitor'')) \<and>
              getprop fallbackMonitor (js ''width'') = Inr (JStr (js ''Unknown'')) \<and>
              getprop fallbackMonitor (js ''height'') = Inr (JStr (js ''Unknown'')))"
proof -
  let ?ms = "if ds \<noteq> [] then si_monitors ds
            else if platformMonitors h \<noteq> [] then platformMonitors h
            else [fallbackMonitor]"
  have ne: "?ms \<noteq> []" using si_monitors_length[of ds] by auto
  have nb: "numbered_from 1 ?ms"
    using si_monitors_numbered[of ds] platformMonitors_numbered[of h] fallback_numbered by simp
  have fb: "detection_method fallbackMonitor = Inr (JStr (js ''fallback'')) \<and>
              record_name fallbackMonitor = Inr (JStr (js ''Unknown Monitor'')) \<and>
              getprop fallbackMonitor (js ''width'') = Inr (JStr (js ''Unknown'')) \<and>
              getprop fallbackMonitor (js ''height'') = Inr (JStr (js ''Unknown''))"
    by (simp add: fallbackMonitor_def detection_method_def record_name_def js_def)
  from getMonitorInfo_cases[OF assms] ne nb fb show ?thesis
    by (intro exI[of _ ?ms]) simp
qed

text \<open>
  The theorem on the example host, where both strategies yield nothing.
\<close>

theorem getMonitorInfo_numbered_witness:
  "si_graphics example_host = Inr [] \<and> platformMonitors example_host = [] \<and>
   getMonitorInfo example_host = monitor_result example_host [fallbackMonitor] \<and>
   numbered_from 1 [fallbackMonitor]"
proof -
  have g: "si_graphics example_host = Inr []" by (simp add: example_host_def)
  have p: "platformMonitors example_host = []"
    by (simp add: platformMonitors_def getLinuxMonitors_def example_host_def js_def)
  from getMonitorInfo_numbered[OF g] g p show ?thesis by auto
qed

text \<open>
  Claim C5 as the specification states it fails: the record that the cross-platform
  graphics query builds on the example host is tagged \<^verbatim>\<open>systeminformation\<close>, which
  is none of \<^verbatim>\<open>systeminfo\<close>, \<^verbatim>\<open>wmi\<close>, \<^verbatim>\<open>system_profiler\<close>, \<^verbatim>\<open>xrandr\<close>,
  \<^verbatim>\<open>fallback\<close>.
\<close>

theorem detection_method_systeminfo_counterexample:
  "getprop (getMonitorInfo (example_host\<lparr>si_graphics := Inr [example_display]\<rparr>)) (js ''monitors'')
     = Inr (JArr [si_monitor 0 example_display]) \<and>
   detection_method (si_monitor 0 example_display) = Inr (JStr (js ''systeminformation'')) \<and>
   js ''systeminformation'' \<notin>
     set [js ''systeminfo'', js ''wmi'', js ''system_profiler'', js ''xrandr'', js ''fallback'']"
  by (simp add: getMonitorInfo_def si_monitors_def si_monitor_tag) (simp add: js_def)

text \<open>
  Claim C5, amended. Every display record of a result of \<^verbatim>\<open>get_monitor_info\<close>
  carries a detection-method tag that is one of \<^verbatim>\<open>systeminformation\<close>, \<^verbatim>\<open>wmi\<close>,
  \<^verbatim>\<open>system_profiler\<close>, \<^verbatim>\<open>xrandr\<close>, \<^verbatim>\<open>fallback\<close>, and every record built from
  the cross-platform graphics query is tagged exactly \<^verbatim>\<open>systeminformation\<close>.
\<close>

theorem detection_method_tags:
  "(getprop (getMonitorInfo h) (js ''monitors'') = Inr (JArr ms) \<longrightarrow>
      (\<forall>r \<in> set ms. \<exists>t \<in> set [js ''systeminformation'', js ''wmi'', js ''system_profiler'',
                                  js ''xrandr'', js ''fallback''].
         detection_method r = Inr (JStr t))) \<and>
   (\<forall>r \<in> set (si_monitors ds). detection_method r = Inr (JStr (js ''systeminformation'')))"
proof (intro conjI impI)
  assume a: "getprop (getMonitorInfo h) (js ''monitors'') = Inr (JArr ms)"
  show "\<forall>r \<in> set ms. \<exists>t \<in> set [js ''systeminformation'', js ''wmi'', js ''system_profiler'',
                                  js ''xrandr'', js ''fallback'']. detection_method r = Inr (JStr t)"
  proof (cases "si_graphics h")
    case (Inl e)
    with a show ?thesis by (simp add: getMonitorInfo_def js_def)
  next
    case (Inr ds')
    let ?ms = "if ds' \<noteq> [] then si_monitors ds'
            else if platformMonitors h \<noteq> [] then platformMonitors h
            else [fallbackMonitor]"
    from getMonitorInfo_cases[OF Inr] a have ms: "ms = ?ms"
      by (simp add: monitor_result_def js_def)
    have "\<exists>t \<in> set [js ''systeminformation'', js ''wmi'', js ''system_profiler'',
                                  js ''xrandr'', js ''fallback'']. tagged t ?ms"
      using si_monitors_tagged[of ds'] platformMonitors_tagged[of h] fallback_tagged by auto
    with ms show ?thesis unfolding tagged_def by blast
  qed
next
  show "\<forall>r \<in> set (si_monitors ds). detection_method r = Inr (JStr (js ''systeminformation''))"
    using si_monitors_tagged[of ds] by (simp add: tagged_def)
qed

text \<open>
  The theorem on the Linux host, whose one record is tagged \<^verbatim>\<open>xrandr\<close>.
\<close>

theorem detection_method_tags_witness:
  "getprop (getMonitorInfo linux_host) (js ''monitors'') = Inr (JArr (getLinuxMonitors linux_host)) \<and>
   getLinuxMonitors linux_host \<noteq> [] \<and>
   map detection_method (getLinuxMonitors linux_host) = [Inr (JStr (js ''xrandr''))] \<and>
   detection_method (si_monitor 0 example_display) = Inr (JStr (js ''systeminformation''))"
proof -
  have l: "getLinuxMonitors linux_host =
    [JObj [(js ''id'', JNum 1), (js ''name'', JStr (js ''HDMI-1'')), (js ''width'', JStr (js ''1920'')),
     (js ''height'', JStr (js ''1080'')), (js ''is_primary'', JBool True),
     (js ''detection_method'', JStr (js ''xrandr''))]]"
    by (simp add: getLinuxMonitors_def linux_host_def example_host_def xrandr_output_def
          linux_line_def js_def match_here_def isDigit_def isWhiteSpace_def)
  have p: "platformMonitors linux_host = getLinuxMonitors linux_host"
    by (simp add: platformMonitors_def linux_host_def example_host_def js_def)
  have g: "getprop (getMonitorInfo linux_host) (js ''monitors'') = Inr (JArr (getLinuxMonitors linux_host))"
    using l p by (simp add: getMonitorInfo_def linux_host_def example_host_def js_def)
  from detection_method_tags[of linux_host "getLinuxMonitors linux_host" "[example_display]"] g l
  show ?thesis
    by (simp add: si_monitors_def detection_method_def js_def)
qed

section \<open>Failures inside and outside a strategy\<close>















section \<open>Placeholder names\<close>

text \<open>
  The cross-platform strategy and the Windows strategy name a record without a name
  after its own id.
\<close>

lemma si_monitor_placeholder:
  "model d = [] \<Longrightarrow>
   record_id (si_monitor index d) = Inr (JNum (real (index + 1))) \<and>
   record_name (si_monitor index d) = Inr (JStr (js ''Display '' @ numberToString (index + 1)))"
proof -
  assume "model d = []"
  then have "or_else (JStr (model d)) v = v" for v by (simp add: or_else_def)
  then show ?thesis
    by (simp add: si_monitor_def record_id_def record_name_def js_def)
qed

lemma win_monitor_placeholder:
  "win_monitor index monitor = Inr r \<Longrightarrow>
   record_id r = Inr (JNum (real (index + 1))) \<and>
   record_name r = Inr (JStr (js ''Monitor '' @ numberToString (index + 1)))"
  by (auto simp: win_monitor_def record_id_def record_name_def js_def split: sum.splits)

text \<open>
  On macOS the placeholder of the record with id \<open>monitorId\<close> is built from
  \<open>monitorId + 1\<close>.
\<close>

lemma mac_monitor_Inr:
  assumes "mac_monitor monitorId monitor = Inr r"
  shows "\<exists>w h nm retina. getprop monitor (js ''_name'') = Inr nm \<and>
           r = JObj [(js ''id'', JNum (real monitorId)),
                     (js ''name'',
                        or_else nm (JStr (js ''Monitor '' @ numberToString (monitorId + 1)))),
                     (js ''width'', w),
                     (js ''height'', h),
                     (js ''retina'', JBool retina),
                     (js ''detection_method'', JStr (js ''system_profiler''))]"
  using assms by (auto simp: mac_monitor_def split: sum.splits prod.splits)

lemma mac_monitor_placeholder:
  assumes "getprop monitor (js ''_name'') = Inr JUndefined"
    and "mac_monitor monitorId monitor = Inr r"
  shows "record_id r = Inr (JNum (real monitorId)) \<and>
         record_name r = Inr (JStr (js ''Monitor '' @ numberToString (monitorId + 1)))"
proof -
  from mac_monitor_Inr[OF assms(2)] assms(1) obtain w h retina where
    "r = JObj [(js ''id'', JNum (real monitorId)),
               (js ''name'', JStr (js ''Monitor '' @ numberToString (monitorId + 1))),
               (js ''width'', w),
               (js ''height'', h),
               (js ''retina'', JBool retina),
               (js ''detection_method'', JStr (js ''system_profiler''))]"
    by (auto simp: or_else_undefined)
  then show ?thesis by (simp add: record_id_def record_name_def js_def)
qed

text \<open>
  Claim C9 says that a display record without a name from its source is named after
  its own id. On the macOS host, whose one monitor entry has no \<^verbatim>\<open>_name\<close>, the
  function returns the record with id 1 under the name \<^verbatim>\<open>Monitor 2\<close>.
\<close>

theorem mac_placeholder_off_by_one:
  "getMonitorInfo mac_host =
     monitor_result mac_host
       [JObj [(js ''id'', JNum 1),
              (js ''name'', JStr (js ''Monitor 2'')),
              (js ''width'', JStr (js ''1920'')),
              (js ''height'', JStr (js ''1080'')),
              (js ''retina'', JBool False),
              (js ''detection_method'', JStr (js ''system_profiler''))]]"
proof -
  have m: "getMacOSMonitors mac_host =
       [JObj [(js ''id'', JNum 1),
              (js ''name'', JStr (js ''Monitor 2'')),
              (js ''width'', JStr (js ''1920'')),
              (js ''height'', JStr (js ''1080'')),
              (js ''retina'', JBool False),
              (js ''detection_method'', JStr (js ''system_profiler''))]]"
    by (simp add: getMacOSMonitors_def mac_host_def example_host_def mac_data_def
          mac_displayInfo_def mac_monitor_def macResolution_def or_else_def js_def trim_def
          isWhiteSpace_def numberToString_digit)
  have p: "platformMonitors mac_host = getMacOSMonitors mac_host"
    by (simp add: platformMonitors_def mac_host_def example_host_def js_def)
  have g: "si_graphics mac_host = Inr []"
    by (simp add: mac_host_def example_host_def)
  from getMonitorInfo_cases[OF g] p m show ?thesis by simp
qed

section \<open>Sorting and truncating the process list\<close>

text \<open>
  The insertion sort returns a permutation that is sorted by the comparator, for a
  consistent comparator; the three comparators of the source give the three orders.
\<close>

lemma insert_by_mset: "mset (insert_by cmp x xs) = add_mset x (mset xs)"
  by (induction xs) auto

lemma array_sort_mset: "mset (array_sort cmp xs) = mset xs"
  unfolding array_sort_def by (induction xs) (auto simp: insert_by_mset)

lemma set_insert_by: "set (insert_by cmp x xs) = insert x (set xs)"
  by (induction xs) auto

lemma insert_by_sorted:
  assumes "consistent cmp" "sorted_wrt (\<lambda>a b. cmp a b \<le> 0) xs"
  shows "sorted_wrt (\<lambda>a b. cmp a b \<le> 0) (insert_by cmp x xs)"
  using assms(2)
proof (induction xs)
  case Nil
  then show ?case by simp
next
  case (Cons y ys)
  have tot: "cmp a b \<le> 0 \<or> cmp b a \<le> 0" for a b
    using assms(1) unfolding consistent_def by blast
  have tr: "cmp a b \<le> 0 \<Longrightarrow> cmp b c \<le> 0 \<Longrightarrow> cmp a c \<le> 0" for a b c
    using assms(1) unfolding consistent_def by blast
  show ?case
  proof (cases "cmp x y \<le> 0")
    case True
    with Cons.prems tr show ?thesis by auto
  next
    case False
    with tot have "cmp y x \<le> 0" by blast
    with False Cons show ?thesis by (auto simp: set_insert_by)
  qed
qed

lemma array_sort_sorted:
  assumes "consistent cmp"
  shows "sorted_wrt (\<lambda>a b. cmp a b \<le> 0) (array_sort cmp xs)"
  unfolding array_sort_def
  by (induction xs) (auto intro: insert_by_sorted[OF assms])

lemma consistent_cpu: "consistent (\<lambda>a b. cpu b - cpu a)"
  by (auto simp: consistent_def)

lemma consistent_memRss: "consistent (\<lambda>a b. memRss b - memRss a)"
  by (auto simp: consistent_def)

lemma sortProcs_mset: "mset (sortProcs h sortBy procs) = mset procs"
  by (simp add: sortProcs_def array_sort_mset)

lemma sortProcs_cpu:
  "sortBy \<noteq> JStr (js ''memory'') \<Longrightarrow> sortBy \<noteq> JStr (js ''name'') \<Longrightarrow>
   sortProcs h sortBy procs = array_sort (\<lambda>a b. cpu b - cpu a) procs"
  by (simp add: sortProcs_def)

lemma sortProcs_cpu_sorted:
  "sortBy \<noteq> JStr (js ''memory'') \<Longrightarrow> sortBy \<noteq> JStr (js ''name'') \<Longrightarrow>
   sorted_wrt (\<lambda>a b. cpu b \<le> cpu a) (sortProcs h sortBy procs)"
  using array_sort_sorted[OF consistent_cpu, of procs] by (simp add: sortProcs_cpu)

lemma sortProcs_memory_sorted:
  "sorted_wrt (\<lambda>a b. memRss b \<le> memRss a) (sortProcs h (JStr (js ''memory'')) procs)"
  using array_sort_sorted[OF consistent_memRss, of procs] by (simp add: sortProcs_def)

lemma sortProcs_name_sorted:
  assumes "consistent (localeCompare h)"
  shows "sorted_wrt (\<lambda>a b. localeCompare h (name a) (name b) \<le> 0)
           (sortProcs h (JStr (js ''name'')) procs)"
proof -
  have "consistent (\<lambda>a b. localeCompare h (name a) (name b))"
    using assms unfolding consistent_def by blast
  from array_sort_sorted[OF this, of procs] show ?thesis
    by (simp add: sortProcs_def js_def)
qed

lemma cpu_key: "JStr (js ''cpu'') \<noteq> JStr (js ''memory'')" "JStr (js ''cpu'') \<noteq> JStr (js ''name'')"
    "JStr (js ''cpu'') \<noteq> JUndefined"
  by (simp_all add: js_def)

lemma sortProcs_cpu_key:
  "sortProcs h (JStr (js ''cpu'')) procs = array_sort (\<lambda>a b. cpu b - cpu a) procs"
  by (rule sortProcs_cpu[OF cpu_key(1) cpu_key(2)])

text \<open>
  \<^verbatim>\<open>slice(0, limit)\<close> keeps the first \<open>limit\<close> elements for a limit that is not
  negative, so the handler returns \<open>min limit total\<close> processes and none for the limit
  0; for a negative limit it drops elements from the end instead. The summary does not
  depend on the limit.
\<close>

lemma slice0_nonneg: "0 \<le> k \<Longrightarrow> slice0 xs (of_int k) = take (nat k) xs"
  by (auto simp: slice0_def ToIntegerOrInfinity_def Let_def min_def)

lemma slice0_length: "0 \<le> k \<Longrightarrow> length (slice0 xs (of_int k)) = min (nat k) (length xs)"
  by (simp add: slice0_nonneg min.commute)

lemma slice0_zero: "slice0 xs 0 = []"
  by (simp add: slice0_def ToIntegerOrInfinity_def)

lemma slice0_negative:
  "k < 0 \<Longrightarrow> slice0 xs (of_int k) = take (length xs - nat (- k)) xs"
  by (auto simp: slice0_def ToIntegerOrInfinity_def Let_def max_def intro!: arg_cong[where f="\<lambda>n. take n xs"])

lemma selectProcs_length:
  "0 \<le> k \<Longrightarrow> length (selectProcs h (Some (of_int k)) sortBy procs) = min (nat k) (length procs)"
proof -
  assume k: "0 \<le> k"
  have "length (sortProcs h s procs) = length procs" for s
    using sortProcs_mset[of h s procs] by (metis size_mset)
  with k show ?thesis by (simp add: selectProcs_def slice0_length)
qed

lemma selectProcs_zero: "selectProcs h (Some 0) sortBy procs = []"
  by (simp add: selectProcs_def slice0_zero)

lemma selectProcs_default:
  "selectProcs h None JUndefined procs = take 20 (array_sort (\<lambda>a b. cpu b - cpu a) procs)"
proof -
  have "slice0 xs 20 = take 20 xs" for xs :: "proc list"
    using slice0_nonneg[of 20 xs] by simp
  then show ?thesis by (simp add: selectProcs_def sortProcs_cpu_key)
qed

lemma selectProcs_prefix:
  "0 \<le> k \<Longrightarrow> selectProcs h (Some (of_int k)) sortBy procs =
     take (nat k) (sortProcs h (if sortBy = JUndefined then JStr (js ''cpu'') else sortBy) procs)"
  by (simp add: selectProcs_def slice0_nonneg)

lemma getRunningProcesses_summary:
  "si_processes h = Inr ps \<Longrightarrow>
   \<exists>r. getRunningProcesses h lmt sortBy = Inr r \<and> getprop r (js ''summary'') = Inr (summary ps)"
  by (simp add: getRunningProcesses_def js_def)

lemma example_cpu: "cpu proc_init = 1 / 2" "cpu proc_node = 25 / 2" "cpu proc_bash = 3"
  by (simp_all add: proc_init_def proc_node_def proc_bash_def)

lemma example_sort:
  "sortProcs h (JStr (js ''cpu'')) [proc_init, proc_node, proc_bash] =
     [proc_node, proc_bash, proc_init]"
  by (simp add: sortProcs_cpu_key array_sort_def example_cpu)

lemma example_list:
  "si_processes example_host = Inr example_processes"
  "list example_processes = [proc_init, proc_node, proc_bash]"
  by (simp_all add: example_host_def example_processes_def)

text \<open>
  Claim C3 says that every limit below or equal to 0 gives an empty sequence of
  processes. On the example host, with three processes, the limit \<open>-1\<close> gives the two
  processes with the highest cpu.
\<close>

theorem negative_limit_keeps_processes:
  "getRunningProcesses example_host (Some (- 1)) (JStr (js ''cpu'')) =
     Inr (JObj [(js ''summary'', summary example_processes),
                (js ''processes'',
                   JArr [format_proc example_host proc_node, format_proc example_host proc_bash])])"
proof -
  have "slice0 [proc_node, proc_bash, proc_init] (- 1) = [proc_node, proc_bash]"
    by (simp add: slice0_def ToIntegerOrInfinity_def)
  then show ?thesis
    by (simp add: getRunningProcesses_def selectProcs_def example_list example_sort)
qed

text \<open>
  Claim C10. For every value of \<^verbatim>\<open>sort_by\<close> other than \<^verbatim>\<open>memory\<close> and
  \<^verbatim>\<open>name\<close>, also one outside the documented enumeration and also when it is
  omitted, \<^verbatim>\<open>get_running_processes\<close> returns what it returns for \<^verbatim>\<open>cpu\<close>: it
  does not fail when the process table is available, and the processes are in
  descending order of cpu.
\<close>

theorem unknown_sort_key_is_cpu:
  assumes "sortBy \<noteq> JStr (js ''memory'')" and "sortBy \<noteq> JStr (js ''name'')"
  shows "getRunningProcesses h lmt sortBy = getRunningProcesses h lmt (JStr (js ''cpu'')) \<and>
         (\<forall>ps. si_processes h = Inr ps \<longrightarrow> (\<exists>r. getRunningProcesses h lmt sortBy = Inr r)) \<and>
         sorted_wrt (\<lambda>a b. cpu b \<le> cpu a) (selectProcs h lmt sortBy procs)"
proof -
  have eq: "selectProcs h lmt sortBy ps = selectProcs h lmt (JStr (js ''cpu'')) ps" for ps
    using assms cpu_key by (simp add: selectProcs_def sortProcs_cpu)
  have "sorted_wrt (\<lambda>a b. cpu b \<le> cpu a) (sortProcs h (JStr (js ''cpu'')) procs)"
    using cpu_key by (simp add: sortProcs_cpu_sorted)
  then have "sorted_wrt (\<lambda>a b. cpu b \<le> cpu a) (selectProcs h lmt (JStr (js ''cpu'')) procs)"
    using cpu_key by (simp add: selectProcs_def slice0_def Let_def sorted_wrt_take)
  with eq show ?thesis
    by (auto simp: getRunningProcesses_def split: sum.splits)
qed

text \<open>
  The theorem on the sort key \<^verbatim>\<open>pid\<close>, which the enumeration does not have.
\<close>

theorem unknown_sort_key_is_cpu_witness:
  "JStr (js ''pid'') \<noteq> JStr (js ''memory'') \<and> JStr (js ''pid'') \<noteq> JStr (js ''name'') \<and>
   getRunningProcesses example_host (Some 2) (JStr (js ''pid'')) =
     getRunningProcesses example_host (Some 2) (JStr (js ''cpu'')) \<and>
   getRunningProcesses example_host (Some 2) (JStr (js ''pid'')) =
     Inr (JObj [(js ''summary'', summary example_processes),
                (js ''processes'',
                   JArr [format_proc example_host proc_node, format_proc example_host proc_bash])])"
proof -
  have a: "JStr (js ''pid'') \<noteq> JStr (js ''memory'')" "JStr (js ''pid'') \<noteq> JStr (js ''name'')"
    by (simp_all add: js_def)
  have "slice0 [proc_node, proc_bash, proc_init] 2 = [proc_node, proc_bash]"
    by (simp add: slice0_def ToIntegerOrInfinity_def)
  then have e: "getRunningProcesses example_host (Some 2) (JStr (js ''cpu'')) =
     Inr (JObj [(js ''summary'', summary example_processes),
                (js ''processes'',
                   JArr [format_proc example_host proc_node, format_proc example_host proc_bash])])"
    by (simp add: getRunningProcesses_def selectProcs_def example_list example_sort)
  from unknown_sort_key_is_cpu[OF a, of example_host "Some 2" "[]"] a e show ?thesis by simp
qed

section \<open>The envelope of a tool call\<close>

lemma runTool_unknown:
  "toolName \<notin> set tool_names \<Longrightarrow>
   runTool h toolName arguments = Inl (Error (js ''Unknown tool: '' @ toolName))"
  by (simp add: runTool_def tool_names_def)

text \<open>
  Claim C8. For every tool-call request, a result that the handler returns comes back
  as one text content block that holds the pretty-printed result, and every exception
  that the handler throws, also the one for an unknown operation name, comes back as
  one text block \<^verbatim>\<open>Error: <message>\<close> with the error flag set. The response always
  has exactly one of the two shapes.
\<close>

theorem callTool_envelope:
  "(\<forall>result. runTool h toolName arguments = Inr result \<longrightarrow>
      callTool h toolName arguments = content_ok (pretty h result)) \<and>
   (\<forall>e. runTool h toolName arguments = Inl e \<longrightarrow>
      callTool h toolName arguments = content_error (message e)) \<and>
   (toolName \<notin> set tool_names \<longrightarrow>
      callTool h toolName arguments = content_error (js ''Unknown tool: '' @ toolName)) \<and>
   ((\<exists>t. callTool h toolName arguments = content_ok t) \<noteq>
    (\<exists>msg. callTool h toolName arguments = content_error msg))"
proof -
  have ok: "callTool h toolName arguments = content_ok (pretty h result)"
    if "runTool h toolName arguments = Inr result" for result
    using that by (simp add: callTool_def content_ok_def pretty_def text_block_def)
  have er: "callTool h toolName arguments = content_error (message e)"
    if "runTool h toolName arguments = Inl e" for e
    using that by (simp add: callTool_def content_error_def text_block_def)
  have un: "callTool h toolName arguments = content_error (js ''Unknown tool: '' @ toolName)"
    if "toolName \<notin> set tool_names"
    using er[OF runTool_unknown[OF that]] by simp
  have ne: "content_ok t \<noteq> content_error msg" for t msg
    by (simp add: content_ok_def content_error_def)
  have "(\<exists>t. callTool h toolName arguments = content_ok t) \<noteq>
    (\<exists>msg. callTool h toolName arguments = content_error msg)"
  proof (cases "runTool h toolName arguments")
    case (Inl e)
    from er[OF Inl] ne[of _ "message e"] show ?thesis by metis
  next
    case (Inr result)
    from ok[OF Inr] ne[of "pretty h result"] show ?thesis by metis
  qed
  with ok er un show ?thesis by blast
qed

text \<open>
  The theorem on an unknown tool name, on a handler that throws and on one that
  returns.
\<close>

theorem callTool_envelope_witness:
  "js ''get_gpu_info'' \<notin> set tool_names \<and>
   callTool example_host (js ''get_gpu_info'') None =
     JObj [(js ''content'',
            JArr [JObj [(js ''type'', JStr (js ''text'')),
                        (js ''text'', JStr (js ''Error: Unknown tool: get_gpu_info''))]]),
           (js ''isError'', JBool True)] \<and>
   runTool example_host (js ''get_system_info'') None = Inl (Error (js ''spawn ENOENT'')) \<and>
   callTool example_host (js ''get_system_info'') None =
     JObj [(js ''content'',
            JArr [JObj [(js ''type'', JStr (js ''text'')),
                        (js ''text'', JStr (js ''Error: spawn ENOENT''))]]),
           (js ''isError'', JBool True)] \<and>
   runTool example_host (js ''get_disk_usage'') None = Inr (JArr []) \<and>
   callTool example_host (js ''get_disk_usage'') None =
     JObj [(js ''content'',
            JArr [JObj [(js ''type'', JStr (js ''text'')), (js ''text'', JStr (js ''{}''))]])]"
proof -
  have n: "js ''get_gpu_info'' \<notin> set tool_names"
    by (simp add: tool_names_def js_def)
  have s: "runTool example_host (js ''get_system_info'') None = Inl (Error (js ''spawn ENOENT''))"
    by (simp add: runTool_def example_host_def) (simp add: js_def)
  have d: "runTool example_host (js ''get_disk_usage'') None = Inr (JArr [])"
    by (simp add: runTool_def example_host_def) (simp add: js_def)
  have p: "pretty example_host (JArr []) = js ''{}''"
    by (simp add: pretty_def example_host_def)
  from callTool_envelope[of example_host "js ''get_gpu_info''" None]
       callTool_envelope[of example_host "js ''get_system_info''" None]
       callTool_envelope[of example_host "js ''get_disk_usage''" None] n s d p
  show ?thesis
    by (simp add: content_ok_def content_error_def text_block_def js_def)
qed

end
